theory Spec2Isabelle
  imports Main
begin

section \<open>skim: the playback and rendering engine of \<^verbatim>\<open>main.go\<close>\<close>

subsection \<open>Strings, code points and bytes\<close>

text \<open>
  A Go string is a sequence of bytes holding UTF-8 text. The program looks at its strings
  in two ways: by code point (\<^verbatim>\<open>utf8.RuneCountInString\<close>, \<^verbatim>\<open>[]rune(s)\<close>, ranging over
  a string) and, in one place, by byte (\<^verbatim>\<open>strings.Builder.Len\<close>). A string is modelled
  here by the list of its code points; its bytes are the UTF-8 encoding of that list
  (\<open>bytes\<close> below). The model therefore covers the strings that hold well-formed UTF-8.
  Concatenation of strings is list append, which is exact for well-formed UTF-8.
\<close>

type_synonym rune = nat
type_synonym gostring = "rune list"
type_synonym byte = nat

definition str :: "string \<Rightarrow> gostring" where
  \<comment> \<open>an ASCII string literal of the source\<close>
  "str s = map of_char s"

definition EncodeRune :: "rune \<Rightarrow> byte list" where
  \<comment> \<open>\<^verbatim>\<open>utf8.AppendRune\<close>: surrogates and values above U+10FFFF are written as U+FFFD\<close>
  "EncodeRune r =
     (if r < 0x80 then [r]
      else if r < 0x800 then [0xC0 + r div 64, 0x80 + r mod 64]
      else if (0xD800 \<le> r \<and> r \<le> 0xDFFF) \<or> 0x10FFFF < r then [0xEF, 0xBF, 0xBD]
      else if r < 0x10000 then
        [0xE0 + r div 4096, 0x80 + (r div 64) mod 64, 0x80 + r mod 64]
      else
        [0xF0 + r div 262144, 0x80 + (r div 4096) mod 64, 0x80 + (r div 64) mod 64,
         0x80 + r mod 64])"

definition bytes :: "gostring \<Rightarrow> byte list" where
  "bytes s = concat (map EncodeRune s)"

definition Len :: "gostring \<Rightarrow> int" where
  \<comment> \<open>\<^verbatim>\<open>len(s)\<close> and \<^verbatim>\<open>strings.Builder.Len()\<close>: the number of bytes\<close>
  "Len s = int (length (bytes s))"

definition RuneCountInString :: "gostring \<Rightarrow> int" where
  "RuneCountInString s = int (length s)"

definition Repeat :: "gostring \<Rightarrow> nat \<Rightarrow> gostring" where
  \<comment> \<open>\<^verbatim>\<open>strings.Repeat\<close> at a count that is not negative\<close>
  "Repeat s n = concat (replicate n s)"

definition goDiv :: "int \<Rightarrow> int \<Rightarrow> int" where
  \<comment> \<open>Go's \<^verbatim>\<open>/\<close> on integers truncates towards zero; the divisor is checked by the caller\<close>
  "goDiv a b = sgn a * sgn b * (\<bar>a\<bar> div \<bar>b\<bar>)"

subsection \<open>ORP, tokenizer, word formatter\<close>

definition calculateORP :: "gostring \<Rightarrow> int" where
  "calculateORP word =
     (let length = RuneCountInString word in
      if length \<le> 1 then 0
      else if length \<le> 5 then 1
      else if length \<le> 9 then 2
      else if length \<le> 13 then 3
      else 4)"

definition isSpace :: "rune \<Rightarrow> bool" where
  \<comment> \<open>\<^verbatim>\<open>unicode.IsSpace\<close>: the code points with the White_Space property\<close>
  "isSpace r \<longleftrightarrow>
     (0x09 \<le> r \<and> r \<le> 0x0D) \<or> r = 0x20 \<or> r = 0x85 \<or> r = 0xA0 \<or> r = 0x1680
     \<or> (0x2000 \<le> r \<and> r \<le> 0x200A) \<or> r = 0x2028 \<or> r = 0x2029 \<or> r = 0x202F
     \<or> r = 0x205F \<or> r = 0x3000"

fun fieldsFrom :: "gostring \<Rightarrow> gostring \<Rightarrow> gostring list" where
  \<comment> \<open>the scan of \<^verbatim>\<open>strings.Fields\<close>; the first argument is the field being read\<close>
  "fieldsFrom cur [] = (if cur = [] then [] else [cur])"
| "fieldsFrom cur (r # rs) =
     (if isSpace r then (if cur = [] then fieldsFrom [] rs else cur # fieldsFrom [] rs)
      else fieldsFrom (cur @ [r]) rs)"

definition Fields :: "gostring \<Rightarrow> gostring list" where
  "Fields s = fieldsFrom [] s"

definition tokenize :: "gostring \<Rightarrow> gostring list" where
  "tokenize text = filter (\<lambda>f. f \<noteq> []) (Fields text)"

definition truncateWord :: "gostring \<Rightarrow> gostring" where
  "truncateWord word =
     (if RuneCountInString word \<le> 32 then word
      else (let runes = word in take 31 runes @ str ''...''))"

subsection \<open>The model and its messages\<close>

text \<open>
  Go's \<^verbatim>\<open>int\<close> is modelled by \<open>int\<close>. The sums and differences that the engine forms
  (an index plus or minus ten, the rate plus or minus 25) stay far from the 64-bit bounds
  wherever a theorem below speaks about them: an index is bounded by the length of a
  slice held in memory, and the rates are small. A runtime panic is a value of \<open>error\<close>.
  The widgets of the terminal library (file picker, help, progress bar) keep their own
  state, which the engine never reads; what the file picker and the file system answer
  to a message is an argument of \<open>Update\<close>.
\<close>

datatype error = DivideByZero | IndexOutOfRange | NegativeRepeatCount

record model =
  words :: "gostring list"
  currentIdx :: int
  wpm :: int
  paused :: bool
  width :: int
  height :: int
  quit :: bool
  focusCol :: int
  showPicker :: bool
  selectedFile :: gostring
  fileError :: gostring

datatype msg = WindowSizeMsg int int | KeyMsg string | tickMsg | FrameMsg | OtherMsg

datatype readFile = ReadErr | ReadOk gostring

datatype picked = NoSelection | Selection gostring readFile

datatype cmd = NoCmd | Quit | Tick int | PickerInit | PickerCmd | ProgressCmd

definition keysPlayPause :: "string list" where "keysPlayPause = ['' '']"
definition keysPrev :: "string list" where "keysPrev = [''left'', ''h'']"
definition keysNext :: "string list" where "keysNext = [''right'', ''l'']"
definition keysFaster :: "string list" where "keysFaster = [''up'', ''k'', ''+'', ''='']"
definition keysSlower :: "string list" where "keysSlower = [''down'', ''j'', ''-'', ''_'']"
definition keysJumpBack :: "string list" where "keysJumpBack = [''['']"
definition keysJumpFwd :: "string list" where "keysJumpFwd = ['']'']"
definition keysRestart :: "string list" where "keysRestart = [''r'']"
definition keysOpenFile :: "string list" where "keysOpenFile = [''o'']"
definition keysQuit :: "string list" where "keysQuit = [''q'', ''esc'', ''ctrl+c'']"

definition Matches :: "string \<Rightarrow> string list \<Rightarrow> bool" where
  "Matches k binding \<longleftrightarrow> k \<in> set binding"

definition isBinaryFile :: "byte list \<Rightarrow> bool" where
  "isBinaryFile content =
     (let checkSize = min 8192 (length content) in 0 \<in> set (take checkSize content))"

definition clampFlag :: "int \<Rightarrow> int" where
  \<comment> \<open>\<^verbatim>\<open>main\<close> on the \<^verbatim>\<open>-wpm\<close> flag\<close>
  "clampFlag w = (if w < 50 then 50 else if w > 1000 then 1000 else w)"

definition initialModel :: "gostring list \<Rightarrow> int \<Rightarrow> model" where
  "initialModel ws w =
     \<lparr>words = ws, currentIdx = 0, wpm = w, paused = True, width = 0, height = 0,
      quit = False, focusCol = 40, showPicker = (length ws = 0),
      selectedFile = [], fileError = []\<rparr>"

definition tickCmd :: "int \<Rightarrow> error + cmd" where
  \<comment> \<open>the interval is a \<^verbatim>\<open>time.Duration\<close>, a number of nanoseconds\<close>
  "tickCmd w =
     (if w = 0 then Inl DivideByZero
      else (let interval = goDiv 60000000000 w in Inr (Tick interval)))"

definition withTick :: "model \<Rightarrow> error + model \<times> cmd" where
  \<comment> \<open>\<^verbatim>\<open>return m, tickCmd(m.wpm)\<close>\<close>
  "withTick m = (case tickCmd (wpm m) of Inl e \<Rightarrow> Inl e | Inr c \<Rightarrow> Inr (m, c))"

subsection \<open>Update\<close>

definition resize :: "msg \<Rightarrow> model \<Rightarrow> model" where
  "resize msg m =
     (case msg of
        WindowSizeMsg w h \<Rightarrow> m\<lparr>width := w, height := h, focusCol := goDiv w 2\<rparr>
      | _ \<Rightarrow> m)"

definition selectFile :: "gostring \<Rightarrow> readFile \<Rightarrow> model \<Rightarrow> model" where
  "selectFile path rd m =
     (let m1 =
        (case rd of
           ReadErr \<Rightarrow> m\<lparr>fileError := str ''Error reading file''\<rparr>
         | ReadOk content \<Rightarrow>
             if isBinaryFile (bytes content)
             then m\<lparr>fileError := str ''Cannot open binary file''\<rparr>
             else (let ws = tokenize content in
                   if length ws > 0
                   then m\<lparr>words := ws, currentIdx := 0, paused := True,
                          selectedFile := path, fileError := []\<rparr>
                   else m\<lparr>fileError := str ''No words found in file''\<rparr>))
      in m1\<lparr>showPicker := False\<rparr>)"

definition updatePicker :: "msg \<Rightarrow> picked \<Rightarrow> model \<Rightarrow> model \<times> cmd" where
  "updatePicker msg sel m =
     (if (case msg of KeyMsg k \<Rightarrow> k = ''esc'' \<or> k = ''q'' | _ \<Rightarrow> False)
      then (m\<lparr>showPicker := False\<rparr>, NoCmd)
      else (case sel of
              Selection path rd \<Rightarrow> (selectFile path rd m, NoCmd)
            | NoSelection \<Rightarrow> (m, PickerCmd)))"

definition updateKey :: "string \<Rightarrow> model \<Rightarrow> error + model \<times> cmd" where
  "updateKey k m =
     (if Matches k keysQuit then Inr (m\<lparr>quit := True\<rparr>, Quit)
      else if Matches k keysOpenFile then
        Inr (m\<lparr>showPicker := True, paused := True\<rparr>, PickerInit)
      else if Matches k keysPlayPause then
        (let m1 = m\<lparr>paused := \<not> paused m\<rparr> in
         if \<not> paused m1 then withTick m1 else Inr (m1, NoCmd))
      else if Matches k keysPrev then
        Inr (if currentIdx m > 0 then m\<lparr>currentIdx := currentIdx m - 1\<rparr> else m, NoCmd)
      else if Matches k keysNext then
        Inr (if currentIdx m < int (length (words m)) - 1
             then m\<lparr>currentIdx := currentIdx m + 1\<rparr> else m, NoCmd)
      else if Matches k keysFaster then
        (let m1 = m\<lparr>wpm := wpm m + 25\<rparr> in
         Inr (if wpm m1 > 1000 then m1\<lparr>wpm := 1000\<rparr> else m1, NoCmd))
      else if Matches k keysSlower then
        (let m1 = m\<lparr>wpm := wpm m - 25\<rparr> in
         Inr (if wpm m1 < 50 then m1\<lparr>wpm := 50\<rparr> else m1, NoCmd))
      else if Matches k keysJumpBack then
        (let m1 = m\<lparr>currentIdx := currentIdx m - 10\<rparr> in
         Inr (if currentIdx m1 < 0 then m1\<lparr>currentIdx := 0\<rparr> else m1, NoCmd))
      else if Matches k keysJumpFwd then
        (let m1 = m\<lparr>currentIdx := currentIdx m + 10\<rparr> in
         Inr (if currentIdx m1 \<ge> int (length (words m1))
              then m1\<lparr>currentIdx := int (length (words m1)) - 1\<rparr> else m1, NoCmd))
      else if Matches k keysRestart then
        Inr (m\<lparr>currentIdx := 0, paused := True\<rparr>, NoCmd)
      else Inr (m, NoCmd))"

definition updateTick :: "model \<Rightarrow> error + model \<times> cmd" where
  "updateTick m =
     (if \<not> paused m \<and> currentIdx m < int (length (words m)) - 1
      then withTick (m\<lparr>currentIdx := currentIdx m + 1\<rparr>)
      else (let m1 = (if currentIdx m \<ge> int (length (words m)) - 1
                      then m\<lparr>paused := True\<rparr> else m)
            in if \<not> paused m1 then withTick m1 else Inr (m1, NoCmd)))"

definition Update :: "msg \<Rightarrow> picked \<Rightarrow> model \<Rightarrow> error + model \<times> cmd" where
  "Update msg sel m0 =
     (let m = resize msg m0 in
      if showPicker m then Inr (updatePicker msg sel m)
      else (case msg of
              KeyMsg k \<Rightarrow> updateKey k m
            | tickMsg \<Rightarrow> updateTick m
            | FrameMsg \<Rightarrow> Inr (m, ProgressCmd)
            | _ \<Rightarrow> Inr (m, NoCmd)))"

subsection \<open>View: the word line\<close>

text \<open>
  A rendered line is a list of glyphs, a code point with the style that
  \<^verbatim>\<open>lipgloss\<close> gives it; the escape sequences of a style take no column, so the width
  of a line is the number of its glyphs (one column for each code point).
\<close>

datatype style = plain | normalStyle | highlightStyle | dimStyle | contextStyle

type_synonym glyph = "style \<times> rune"

definition Render :: "style \<Rightarrow> gostring \<Rightarrow> glyph list" where
  "Render st s = map (Pair st) s"

definition halfWidth :: int where
  "halfWidth = 30"

definition word :: "model \<Rightarrow> gostring" where
  "word m = words m ! nat (currentIdx m)"

definition truncatedWord :: "model \<Rightarrow> gostring" where
  "truncatedWord m = truncateWord (word m)"

definition orpIdx :: "model \<Rightarrow> int" where
  "orpIdx m = calculateORP (truncatedWord m)"

definition runes :: "model \<Rightarrow> rune list" where
  "runes m = truncatedWord m"

definition wordLen :: "model \<Rightarrow> int" where
  "wordLen m = RuneCountInString (word m)"

definition charsBeforeORP :: "model \<Rightarrow> int" where
  "charsBeforeORP m = orpIdx m"

definition charsAfterORP :: "model \<Rightarrow> int" where
  "charsAfterORP m = wordLen m - orpIdx m"

definition beforeSectionWidth :: "model \<Rightarrow> int" where
  "beforeSectionWidth m = max 0 (halfWidth - charsBeforeORP m)"

definition beforeStr :: "model \<Rightarrow> gostring" where
  "beforeStr m = concat (map (\<lambda>w. w @ str '' '') (take (nat (currentIdx m)) (words m)))"

definition contextBefore :: "model \<Rightarrow> gostring" where
  "contextBefore m =
     (let beforeRunes = beforeStr m in
      if int (length beforeRunes) > beforeSectionWidth m
      then drop (nat (int (length beforeRunes) - beforeSectionWidth m)) beforeRunes
      else if beforeSectionWidth m > 0
      then Repeat (str '' '') (nat (beforeSectionWidth m - int (length beforeRunes)))
           @ beforeStr m
      else [])"

definition renderedWord :: "model \<Rightarrow> glyph list" where
  "renderedWord m =
     concat (map (\<lambda>(i, r). if int i = orpIdx m then Render highlightStyle [r]
                            else Render normalStyle [r])
                 (enumerate 0 (runes m)))"

definition afterSectionWidth :: "model \<Rightarrow> int" where
  "afterSectionWidth m = max 0 (halfWidth - charsAfterORP m)"

fun scanAfter :: "int \<Rightarrow> gostring list \<Rightarrow> gostring \<Rightarrow> gostring" where
  \<comment> \<open>the loop that fills \<^verbatim>\<open>afterBuilder\<close>: the words left, and the builder's content\<close>
  "scanAfter limit [] acc = acc"
| "scanAfter limit (w # ws) acc =
     (if Len acc < limit then scanAfter limit ws (acc @ str '' '' @ w) else acc)"

definition afterStr :: "model \<Rightarrow> gostring" where
  "afterStr m =
     scanAfter (afterSectionWidth m + 20) (drop (nat (currentIdx m + 1)) (words m)) []"

definition contextAfter :: "model \<Rightarrow> gostring" where
  "contextAfter m =
     (let afterRunes = afterStr m in
      if int (length afterRunes) > afterSectionWidth m
      then take (nat (afterSectionWidth m)) afterRunes
      else if afterSectionWidth m > 0
      then afterStr m
           @ Repeat (str '' '') (nat (afterSectionWidth m - int (length afterRunes)))
      else [])"

definition leftPadding :: "model \<Rightarrow> int" where
  "leftPadding m = max 0 (focusCol m - halfWidth)"

definition focusLine :: "model \<Rightarrow> glyph list" where
  "focusLine m =
     Render plain (Repeat (str '' '') (nat (focusCol m))) @ Render dimStyle [0x2502]"

definition wordLine :: "model \<Rightarrow> glyph list" where
  "wordLine m =
     Render plain (Repeat (str '' '') (nat (leftPadding m)))
     @ Render contextStyle (contextBefore m) @ renderedWord m
     @ Render contextStyle (contextAfter m)"

text \<open>
  How many terminal columns a code point takes (one for most, two for a wide character,
  none for a combining mark) is decided by the terminal and the width tables of the
  terminal library, which are not part of the repository: it is the parameter \<open>cells\<close>
  of the display width of a line and of the column at which a glyph of the line starts.
\<close>

definition displayWidth :: "(rune \<Rightarrow> nat) \<Rightarrow> glyph list \<Rightarrow> nat" where
  "displayWidth cells line = sum_list (map (\<lambda>g. cells (snd g)) line)"

definition columnOf :: "(rune \<Rightarrow> nat) \<Rightarrow> glyph list \<Rightarrow> nat \<Rightarrow> nat" where
  "columnOf cells line j = displayWidth cells (take j line)"

text \<open>
  The frame that \<open>View\<close> returns: the early returns by name, the reading screen by its
  focus line and word line. The rows below the word line (progress bar, status line,
  help) come from the widgets; the status line divides by the rate.
\<close>

datatype frame = Blank | Loading | PickerScreen | Notice gostring
  | Reading "glyph list" "glyph list"

definition pressO :: gostring where
  "pressO = str ''. Press 'o' to open a text file or provide a URL as an argument.''"

definition View :: "model \<Rightarrow> error + frame" where
  "View m =
     (if quit m then Inr Blank
      else if width m = 0 \<or> height m = 0 then Inr Loading
      else if showPicker m then Inr PickerScreen
      else if length (words m) = 0 then
        (if fileError m \<noteq> [] then Inr (Notice (fileError m @ pressO))
         else Inr (Notice (str ''No words to display'' @ pressO)))
      else if \<not> (0 \<le> currentIdx m \<and> currentIdx m < int (length (words m)))
      then Inl IndexOutOfRange
      else if focusCol m < 0 then Inl NegativeRepeatCount
      else if wpm m = 0 then Inl DivideByZero
      else Inr (Reading (focusLine m) (wordLine m)))"

subsection \<open>The states of the engine\<close>

datatype playback = Idle | Paused | Playing

definition engineState :: "model \<Rightarrow> playback" where
  \<comment> \<open>the three states that the specification names, read off the model\<close>
  "engineState m =
     (if words m = [] then Idle else if paused m then Paused else Playing)"

inductive reachable :: "model \<Rightarrow> bool" where
  start: "reachable (initialModel (tokenize text) (clampFlag w))"
| step: "reachable m \<Longrightarrow> Update msg sel m = Inr (m', c) \<Longrightarrow> reachable m'"

subsection \<open>Notions of the specification\<close>

definition clamp :: "int \<Rightarrow> int \<Rightarrow> int \<Rightarrow> int" where
  \<comment> \<open>the specification's \<^verbatim>\<open>clamp(x, lo, hi)\<close>\<close>
  "clamp x lo hi = max lo (min hi x)"

definition specIntervalMs :: "int \<Rightarrow> int" where
  \<comment> \<open>the specification's interval: the milliseconds of a minute, integer-divided by the rate\<close>
  "specIntervalMs w = 60000 div w"

definition followingWords :: "model \<Rightarrow> gostring" where
  \<comment> \<open>the specification's right context before cutting: the words after the current one, each
      preceded by one space\<close>
  "followingWords m =
     concat (map (\<lambda>w. str '' '' @ w) (drop (nat (currentIdx m + 1)) (words m)))"

definition specRightBudget :: "model \<Rightarrow> int" where
  \<comment> \<open>the specification's right budget \<open>max(0, H - after)\<close>, with \<open>after\<close> the display length
      of the current word, after truncation, less its ORP offset\<close>
  "specRightBudget m =
     max 0 (halfWidth - (RuneCountInString (truncatedWord m) - orpIdx m))"

definition specContextAfter :: "model \<Rightarrow> gostring" where
  \<comment> \<open>the specification's right context: the leading \<open>N\<close> code points of \<open>followingWords\<close>,
      padded with spaces to \<open>N\<close>, for the right budget \<open>N\<close>\<close>
  "specContextAfter m =
     (let N = nat (specRightBudget m); lead = take N (followingWords m)
      in lead @ Repeat (str '' '') (N - length lead))"

subsection \<open>The invariant of the engine\<close>

definition invariant :: "model \<Rightarrow> bool" where
  \<comment> \<open>what holds of every state that the program reaches (\<open>reachable_invariant\<close> below)\<close>
  "invariant m \<longleftrightarrow>
     (showPicker m \<longrightarrow> paused m) \<and> 50 \<le> wpm m \<and> wpm m \<le> 1000
     \<and> (words m \<noteq> [] \<longrightarrow> 0 \<le> currentIdx m \<and> currentIdx m < int (length (words m)))
     \<and> (\<forall>w \<in> set (words m). w \<noteq> [])"

section \<open>Auxiliary facts\<close>

lemma calculateORP_range: "0 \<le> calculateORP w \<and> calculateORP w \<le> 4"
  by (simp add: calculateORP_def Let_def)

lemma calculateORP_lt_length:
  "w \<noteq> [] \<Longrightarrow> calculateORP w < RuneCountInString w"
  by (cases w) (auto simp: calculateORP_def RuneCountInString_def Let_def)

lemma length_str [simp]: "length (str s) = length s"
  by (simp add: str_def)

lemma RuneCount_truncateWord:
  "RuneCountInString (truncateWord w) =
     (if RuneCountInString w \<le> 32 then RuneCountInString w else 34)"
  by (auto simp: truncateWord_def RuneCountInString_def Let_def)

lemma truncateWord_nonempty: "w \<noteq> [] \<Longrightarrow> truncateWord w \<noteq> []"
  by (auto simp: truncateWord_def Let_def str_def)

lemma tokenize_nonempty: "w \<in> set (tokenize text) \<Longrightarrow> w \<noteq> []"
  by (simp add: tokenize_def)

lemmas key_defs = Matches_def keysFaster_def keysSlower_def
      keysQuit_def keysOpenFile_def keysPlayPause_def keysPrev_def keysNext_def
      keysJumpBack_def keysJumpFwd_def keysRestart_def

lemma Update_key: "\<not> showPicker m \<Longrightarrow> Update (KeyMsg k) sel m = updateKey k m"
  by (simp add: Update_def resize_def)

lemma Update_tick: "\<not> showPicker m \<Longrightarrow> Update tickMsg sel m = updateTick m"
  by (simp add: Update_def resize_def)

lemma goDiv_pos: "0 \<le> a \<Longrightarrow> 0 < b \<Longrightarrow> goDiv a b = a div b"
  by (simp add: goDiv_def sgn_if)

subsection \<open>The invariant of the reachable states\<close>

lemma invariant_initialModel: "invariant (initialModel (tokenize text) (clampFlag w))"
  by (auto simp: invariant_def initialModel_def clampFlag_def tokenize_nonempty)

lemma invariant_resize: "invariant m \<Longrightarrow> invariant (resize msg m)"
  by (cases msg) (simp_all add: invariant_def resize_def)

lemma invariant_selectFile: "invariant m \<Longrightarrow> invariant (selectFile path rd m)"
  by (cases rd) (auto simp: invariant_def selectFile_def Let_def tokenize_nonempty)

lemma invariant_updatePicker:
  assumes "invariant m" and "updatePicker msg sel m = (m', c)"
  shows "invariant m'"
proof (cases "case msg of KeyMsg k \<Rightarrow> k = ''esc'' \<or> k = ''q'' | _ \<Rightarrow> False")
  case True
  with assms(2) have "m' = m\<lparr>showPicker := False\<rparr>" by (simp add: updatePicker_def)
  with assms(1) show ?thesis by (simp add: invariant_def)
next
  case False
  show ?thesis
  proof (cases sel)
    case NoSelection
    with False assms(2) have "m' = m" by (simp add: updatePicker_def)
    with assms(1) show ?thesis by simp
  next
    case (Selection path rd)
    with False assms(2) have "m' = selectFile path rd m" by (simp add: updatePicker_def)
    with assms(1) show ?thesis by (simp add: invariant_selectFile)
  qed
qed

lemma withTick_Inr: "withTick m = Inr (m', c) \<Longrightarrow> m' = m"
  by (auto simp: withTick_def split: sum.splits)

lemma withTick_ok: "wpm m \<noteq> 0 \<Longrightarrow> withTick m = Inr (m, Tick (goDiv 60000000000 (wpm m)))"
  by (simp add: withTick_def tickCmd_def)

lemma updateKey_words: "updateKey k m = Inr (m', c) \<Longrightarrow> words m' = words m"
  unfolding updateKey_def Let_def by (auto split: if_splits dest!: withTick_Inr)

lemma updateKey_wpm:
  "updateKey k m = Inr (m', c) \<Longrightarrow> 50 \<le> wpm m \<Longrightarrow> wpm m \<le> 1000
   \<Longrightarrow> 50 \<le> wpm m' \<and> wpm m' \<le> 1000"
  unfolding updateKey_def Let_def by (auto split: if_splits dest!: withTick_Inr)

lemma updateKey_picker:
  "updateKey k m = Inr (m', c) \<Longrightarrow> \<not> showPicker m \<Longrightarrow> showPicker m' \<Longrightarrow> paused m'"
  unfolding updateKey_def Let_def by (auto split: if_splits dest!: withTick_Inr)

lemma updateKey_index:
  "updateKey k m = Inr (m', c) \<Longrightarrow> 0 \<le> currentIdx m \<Longrightarrow> currentIdx m < int (length (words m))
   \<Longrightarrow> 0 \<le> currentIdx m' \<and> currentIdx m' < int (length (words m'))"
  unfolding updateKey_def Let_def by (auto split: if_splits dest!: withTick_Inr)

lemma invariant_updateKey:
  assumes "invariant m" and "\<not> showPicker m" and "updateKey k m = Inr (m', c)"
  shows "invariant m'"
  using assms updateKey_words [OF assms(3)] updateKey_wpm [OF assms(3)]
    updateKey_picker [OF assms(3)] updateKey_index [OF assms(3)]
  by (simp add: invariant_def)

lemma updateTick_fields:
  "updateTick m = Inr (m', c) \<Longrightarrow>
   words m' = words m \<and> wpm m' = wpm m \<and> showPicker m' = showPicker m"
  unfolding updateTick_def Let_def by (auto split: if_splits dest!: withTick_Inr)

lemma updateTick_index:
  "updateTick m = Inr (m', c) \<Longrightarrow> 0 \<le> currentIdx m \<Longrightarrow> currentIdx m < int (length (words m))
   \<Longrightarrow> 0 \<le> currentIdx m' \<and> currentIdx m' < int (length (words m'))"
  unfolding updateTick_def Let_def by (auto split: if_splits dest!: withTick_Inr)

lemma invariant_updateTick:
  assumes "invariant m" and "\<not> showPicker m" and "updateTick m = Inr (m', c)"
  shows "invariant m'"
  using assms updateTick_fields [OF assms(3)] updateTick_index [OF assms(3)]
  by (simp add: invariant_def)

lemma invariant_Update:
  assumes "invariant m" and "Update msg sel m = Inr (m', c)"
  shows "invariant m'"
proof -
  let ?r = "resize msg m"
  have r: "invariant ?r" using assms(1) by (rule invariant_resize)
  show ?thesis
  proof (cases "showPicker ?r")
    case True
    with assms(2) have "updatePicker msg sel ?r = (m', c)"
      by (simp add: Update_def)
    with r show ?thesis by (rule invariant_updatePicker)
  next
    case False
    show ?thesis
    proof (cases msg)
      case (KeyMsg k)
      with False assms(2) have "updateKey k ?r = Inr (m', c)" by (simp add: Update_def)
      with r False show ?thesis by (rule invariant_updateKey)
    next
      case tickMsg
      with False assms(2) have "updateTick ?r = Inr (m', c)" by (simp add: Update_def)
      with r False show ?thesis by (rule invariant_updateTick)
    qed (use False assms(2) r in \<open>auto simp: Update_def\<close>)
  qed
qed

lemma reachable_invariant: "reachable m \<Longrightarrow> invariant m"
  by (induction rule: reachable.induct) (auto intro: invariant_initialModel invariant_Update)

subsection \<open>Ticks\<close>

lemma updateTick_advance:
  assumes "\<not> paused m" and "currentIdx m < int (length (words m)) - 1" and "wpm m \<noteq> 0"
  shows "updateTick m = Inr (m\<lparr>currentIdx := currentIdx m + 1\<rparr>, Tick (goDiv 60000000000 (wpm m)))"
  using assms by (simp add: updateTick_def withTick_ok)

lemma updateTick_end:
  assumes "currentIdx m \<ge> int (length (words m)) - 1"
  shows "updateTick m = Inr (m\<lparr>paused := True\<rparr>, NoCmd)"
  using assms by (simp add: updateTick_def Let_def)

lemma updateTick_paused:
  assumes "paused m" and "currentIdx m < int (length (words m)) - 1"
  shows "updateTick m = Inr (m, NoCmd)"
  using assms by (simp add: updateTick_def Let_def)

lemma tokenize_fox:
  "tokenize (str ''The quick brown fox'') = [str ''The'', str ''quick'', str ''brown'', str ''fox'']"
  by (simp add: tokenize_def Fields_def str_def isSpace_def)

lemma clampFlag_500: "clampFlag 500 = 500"
  by (simp add: clampFlag_def)

subsection \<open>Index moves\<close>

lemma updateKey_Prev:
  "k \<in> set keysPrev \<Longrightarrow>
   updateKey k m = Inr (if currentIdx m > 0 then m\<lparr>currentIdx := currentIdx m - 1\<rparr> else m, NoCmd)"
  by (auto simp: updateKey_def key_defs)

lemma updateKey_Next:
  "k \<in> set keysNext \<Longrightarrow>
   updateKey k m = Inr (if currentIdx m < int (length (words m)) - 1
                        then m\<lparr>currentIdx := currentIdx m + 1\<rparr> else m, NoCmd)"
  by (auto simp: updateKey_def key_defs)

lemma updateKey_JumpBack:
  "k \<in> set keysJumpBack \<Longrightarrow>
   updateKey k m = Inr (m\<lparr>currentIdx := (if currentIdx m - 10 < 0 then 0 else currentIdx m - 10)\<rparr>, NoCmd)"
  by (auto simp: updateKey_def key_defs Let_def)

lemma updateKey_JumpFwd:
  "k \<in> set keysJumpFwd \<Longrightarrow>
   updateKey k m = Inr (m\<lparr>currentIdx := (if currentIdx m + 10 \<ge> int (length (words m))
                                          then int (length (words m)) - 1 else currentIdx m + 10)\<rparr>, NoCmd)"
  by (auto simp: updateKey_def key_defs Let_def)

lemma updateKey_Restart:
  "k \<in> set keysRestart \<Longrightarrow> updateKey k m = Inr (m\<lparr>currentIdx := 0, paused := True\<rparr>, NoCmd)"
  by (auto simp: updateKey_def key_defs)

lemma Matches_Faster:
  assumes "k \<in> set keysFaster"
  shows "\<not> Matches k keysQuit" "\<not> Matches k keysOpenFile" "\<not> Matches k keysPlayPause"
    "\<not> Matches k keysPrev" "\<not> Matches k keysNext" "Matches k keysFaster"
  using assms by (auto simp: key_defs)

lemma Matches_Slower:
  assumes "k \<in> set keysSlower"
  shows "\<not> Matches k keysQuit" "\<not> Matches k keysOpenFile" "\<not> Matches k keysPlayPause"
    "\<not> Matches k keysPrev" "\<not> Matches k keysNext" "\<not> Matches k keysFaster"
    "Matches k keysSlower"
  using assms by (auto simp: key_defs)

lemma updateKey_Faster:
  "k \<in> set keysFaster \<Longrightarrow>
   updateKey k m = Inr (m\<lparr>wpm := (if wpm m + 25 > 1000 then 1000 else wpm m + 25)\<rparr>, NoCmd)"
  by (simp add: updateKey_def Let_def Matches_Faster)

lemma updateKey_Slower:
  "k \<in> set keysSlower \<Longrightarrow>
   updateKey k m = Inr (m\<lparr>wpm := (if wpm m - 25 < 50 then 50 else wpm m - 25)\<rparr>, NoCmd)"
  by (simp add: updateKey_def Let_def Matches_Slower)

lemma index_preserved:
  assumes "words m \<noteq> []" and "0 \<le> currentIdx m" and "currentIdx m < int (length (words m))"
    and "Update msg sel m = Inr (m', c)"
  shows "0 \<le> currentIdx m' \<and> currentIdx m' < int (length (words m'))"
proof -
  let ?r = "resize msg m"
  have r: "words ?r = words m" "currentIdx ?r = currentIdx m"
    by (cases msg; simp add: resize_def)+
  show ?thesis
  proof (cases "showPicker ?r")
    case True
    with assms(4) have "updatePicker msg sel ?r = (m', c)" by (simp add: Update_def)
    then show ?thesis using assms(1-3) r
      by (cases sel) (auto simp: updatePicker_def selectFile_def Let_def
          split: if_splits readFile.splits)
  next
    case False
    show ?thesis
    proof (cases msg)
      case (KeyMsg k)
      with False assms(4) have "updateKey k ?r = Inr (m', c)" by (simp add: Update_def)
      then show ?thesis using assms(1-3) r
        unfolding updateKey_def Let_def
        by (auto split: if_splits dest!: withTick_Inr)
    next
      case tickMsg
      with False assms(4) have "updateTick ?r = Inr (m', c)" by (simp add: Update_def)
      then show ?thesis using assms(1-3) r
        unfolding updateTick_def Let_def
        by (auto split: if_splits dest!: withTick_Inr)
    qed (use False assms r in \<open>auto simp: Update_def\<close>)
  qed
qed

subsection \<open>Loading a file, and the view without words\<close>

lemma Update_select:
  assumes "showPicker m" and "k \<noteq> ''esc''" and "k \<noteq> ''q''"
  shows "Update (KeyMsg k) (Selection path rd) m = Inr (selectFile path rd m, NoCmd)"
  using assms by (simp add: Update_def resize_def updatePicker_def)

lemma selectFile_words:
  assumes "\<not> isBinaryFile (bytes content)" and "tokenize content \<noteq> []"
  shows "selectFile path (ReadOk content) m
         = m\<lparr>words := tokenize content, currentIdx := 0, paused := True,
              selectedFile := path, fileError := [], showPicker := False\<rparr>"
  using assms by (simp add: selectFile_def Let_def)

lemma selectFile_no_words:
  assumes "\<not> isBinaryFile (bytes content)" and "tokenize content = []"
  shows "selectFile path (ReadOk content) m
         = m\<lparr>fileError := str ''No words found in file'', showPicker := False\<rparr>"
  using assms by (simp add: selectFile_def Let_def)

lemma View_no_words:
  assumes "words m = []"
  shows "View m = (if quit m then Inr Blank
                   else if width m = 0 \<or> height m = 0 then Inr Loading
                   else if showPicker m then Inr PickerScreen
                   else if fileError m \<noteq> [] then Inr (Notice (fileError m @ pressO))
                   else Inr (Notice (str ''No words to display'' @ pressO)))"
  using assms by (simp add: View_def)

lemma View_reading:
  assumes "\<not> quit m" "width m \<noteq> 0" "height m \<noteq> 0" "\<not> showPicker m" "words m \<noteq> []"
    "0 \<le> currentIdx m" "currentIdx m < int (length (words m))" "0 \<le> focusCol m" "wpm m \<noteq> 0"
  shows "View m = Inr (Reading (focusLine m) (wordLine m))"
  using assms by (simp add: View_def)

subsection \<open>The word line\<close>

lemma Repeat_space: "Repeat (str '' '') n = replicate n 32"
  by (induction n) (simp_all add: Repeat_def str_def)

lemma length_contextBefore: "length (contextBefore m) = nat (beforeSectionWidth m)"
  by (auto simp: contextBefore_def Let_def Repeat_space)

lemma length_contextAfter: "length (contextAfter m) = nat (afterSectionWidth m)"
  by (auto simp: contextAfter_def Let_def Repeat_space)

lemma renderedWord_map:
  "renderedWord m =
     map (\<lambda>(i, r). (if int i = orpIdx m then highlightStyle else normalStyle, r))
         (enumerate 0 (runes m))"
proof -
  have "(\<lambda>(i, r). if int i = orpIdx m then Render highlightStyle [r] else Render normalStyle [r])
        = (\<lambda>p. [(\<lambda>(i, r). (if int i = orpIdx m then highlightStyle else normalStyle, r)) p])"
    by (auto simp: Render_def fun_eq_iff)
  then show ?thesis
    by (simp add: renderedWord_def concat_map_singleton)
qed

lemma length_renderedWord: "length (renderedWord m) = length (runes m)"
  by (simp add: renderedWord_map)

lemma nth_renderedWord:
  "j < length (runes m) \<Longrightarrow>
   renderedWord m ! j = (if int j = orpIdx m then highlightStyle else normalStyle, runes m ! j)"
  by (simp add: renderedWord_map nth_enumerate_eq)

lemma snd_renderedWord: "map snd (renderedWord m) = runes m"
proof (rule nth_equalityI)
  show "length (map snd (renderedWord m)) = length (runes m)"
    by (simp add: length_renderedWord)
next
  fix i
  assume "i < length (map snd (renderedWord m))"
  then have "i < length (runes m)" by (simp add: length_renderedWord)
  then show "map snd (renderedWord m) ! i = runes m ! i"
    by (simp add: length_renderedWord nth_renderedWord)
qed

lemma orpIdx_range: "0 \<le> orpIdx m \<and> orpIdx m \<le> 4"
  by (simp add: orpIdx_def calculateORP_range)

lemma orpIdx_lt: "word m \<noteq> [] \<Longrightarrow> nat (orpIdx m) < length (runes m)"
  using calculateORP_lt_length [of "truncatedWord m"] orpIdx_range [of m]
  by (simp add: orpIdx_def runes_def truncatedWord_def truncateWord_nonempty RuneCountInString_def
      nat_less_iff)

lemma beforeSectionWidth_eq: "beforeSectionWidth m = 30 - orpIdx m"
  using orpIdx_range [of m] by (simp add: beforeSectionWidth_def halfWidth_def charsBeforeORP_def)

lemma width_word_after:
  assumes "wordLen m \<noteq> 33"
  shows "int (length (runes m)) + afterSectionWidth m = 30 + orpIdx m"
proof (cases "wordLen m \<le> 32")
  case True
  then have r: "runes m = word m"
    by (simp add: runes_def truncatedWord_def truncateWord_def wordLen_def)
  then have l: "int (length (runes m)) = wordLen m"
    by (simp add: wordLen_def RuneCountInString_def)
  have "wordLen m - orpIdx m \<le> 30"
    using True l r orpIdx_range [of m]
    by (auto simp: orpIdx_def truncatedWord_def runes_def wordLen_def calculateORP_def Let_def
        split: if_splits)
  then show ?thesis using l
    by (simp add: afterSectionWidth_def charsAfterORP_def halfWidth_def)
next
  case False
  with assms have big: "34 \<le> wordLen m" by simp
  then have l: "int (length (runes m)) = 34"
    using RuneCount_truncateWord [of "word m"]
    by (simp add: runes_def truncatedWord_def wordLen_def RuneCountInString_def)
  then have o: "orpIdx m = 4"
    by (simp add: orpIdx_def calculateORP_def runes_def RuneCountInString_def Let_def)
  show ?thesis using big l o
    by (simp add: afterSectionWidth_def charsAfterORP_def halfWidth_def)
qed

lemma wordLine_split:
  assumes "word m \<noteq> []"
  shows "\<exists>pre post. wordLine m = pre @ (highlightStyle, runes m ! nat (orpIdx m)) # post
           \<and> length pre = nat (leftPadding m) + 30
           \<and> highlightStyle \<notin> fst ` set pre \<and> highlightStyle \<notin> fst ` set post"
proof -
  let ?o = "nat (orpIdx m)"
  let ?rw = "renderedWord m"
  have o: "?o < length (runes m)" using assms by (rule orpIdx_lt)
  have oi: "int ?o = orpIdx m" using orpIdx_range [of m] by simp
  have len: "length ?rw = length (runes m)" by (rule length_renderedWord)
  have rw: "?rw = take ?o ?rw @ ?rw ! ?o # drop (Suc ?o) ?rw"
    using o len by (simp add: id_take_nth_drop)
  have mid: "?rw ! ?o = (highlightStyle, runes m ! ?o)"
    using o oi by (simp add: nth_renderedWord)
  have other: "\<And>j. j < length (runes m) \<Longrightarrow> j \<noteq> ?o \<Longrightarrow> fst (?rw ! j) = normalStyle"
    using oi by (simp add: nth_renderedWord)
  have t: "highlightStyle \<notin> fst ` set (take ?o ?rw)"
  proof
    assume "highlightStyle \<in> fst ` set (take ?o ?rw)"
    then obtain j where "j < length (take ?o ?rw)" "fst (take ?o ?rw ! j) = highlightStyle"
      by (auto simp: in_set_conv_nth)
    then show False using other [of j] o len by simp
  qed
  have d: "highlightStyle \<notin> fst ` set (drop (Suc ?o) ?rw)"
  proof
    assume "highlightStyle \<in> fst ` set (drop (Suc ?o) ?rw)"
    then obtain j where j: "j < length (drop (Suc ?o) ?rw)"
      and f: "fst (drop (Suc ?o) ?rw ! j) = highlightStyle"
      by (auto simp: in_set_conv_nth)
    from j len have b: "Suc ?o + j < length (runes m)" by simp
    then have "fst (?rw ! (Suc ?o + j)) = normalStyle" by (intro other) simp_all
    moreover from f b len have "fst (?rw ! (Suc ?o + j)) = highlightStyle" by simp
    ultimately show False by simp
  qed
  let ?pre = "Render plain (Repeat (str '' '') (nat (leftPadding m)))
     @ Render contextStyle (contextBefore m) @ take ?o ?rw"
  let ?post = "drop (Suc ?o) ?rw @ Render contextStyle (contextAfter m)"
  have "wordLine m = ?pre @ (highlightStyle, runes m ! ?o) # ?post"
    using rw mid by (simp add: wordLine_def)
  moreover have "length ?pre = nat (leftPadding m) + 30"
  proof -
    have "nat (30 - orpIdx m) + nat (orpIdx m) = 30"
      using orpIdx_range [of m] by linarith
    then show ?thesis using o len
      by (simp add: Render_def Repeat_space length_contextBefore beforeSectionWidth_eq)
  qed
  moreover have "highlightStyle \<notin> fst ` set ?pre"
    using t by (auto simp: Render_def)
  moreover have "highlightStyle \<notin> fst ` set ?post"
    using d by (auto simp: Render_def)
  ultimately show ?thesis by blast
qed

lemma length_wordLine:
  "int (length (wordLine m))
   = int (nat (leftPadding m)) + (30 - orpIdx m) + (int (length (runes m)) + afterSectionWidth m)"
  using orpIdx_range [of m]
  by (simp add: wordLine_def Render_def Repeat_space length_contextBefore length_contextAfter
      length_renderedWord beforeSectionWidth_eq afterSectionWidth_def)

lemma displayWidth_one:
  "\<forall>g \<in> set line. cells (snd g) = 1 \<Longrightarrow> displayWidth cells line = length line"
  by (induction line) (simp_all add: displayWidth_def)

lemma columnOf_one:
  assumes "\<forall>g \<in> set line. cells (snd g) = 1" and "j \<le> length line"
  shows "columnOf cells line j = j"
proof -
  have "\<forall>g \<in> set (take j line). cells (snd g) = 1"
    using assms(1) by (meson in_set_takeD)
  then have "displayWidth cells (take j line) = length (take j line)"
    by (rule displayWidth_one)
  with assms(2) show ?thesis by (simp add: columnOf_def)
qed

lemma columnOf_focusLine:
  assumes "cells 32 = 1" and "0 \<le> focusCol m"
  shows "int (columnOf cells (focusLine m) (nat (focusCol m))) = focusCol m"
proof -
  have "take (nat (focusCol m)) (focusLine m) = map (Pair plain) (replicate (nat (focusCol m)) 32)"
    by (simp add: focusLine_def Render_def Repeat_space)
  then have "columnOf cells (focusLine m) (nat (focusCol m))
      = sum_list (replicate (nat (focusCol m)) (cells 32))"
    by (simp add: columnOf_def displayWidth_def map_replicate_const comp_def)
  then show ?thesis using assms by (simp add: sum_list_replicate)
qed

subsection \<open>The right context\<close>

lemma Len_Nil: "Len [] = 0"
  by (simp add: Len_def bytes_def)

lemma Len_Cons: "Len (r # s) = int (length (EncodeRune r)) + Len s"
  by (simp add: Len_def bytes_def)

lemma Len_append: "Len (s @ t) = Len s + Len t"
  by (simp add: Len_def bytes_def)

lemma Len_replicate: "Len (replicate n r) = int n * int (length (EncodeRune r))"
  by (induction n) (simp_all add: Len_def bytes_def algebra_simps)

lemma Len_ascii: "\<forall>r \<in> set s. r < 0x80 \<Longrightarrow> Len s = int (length s)"
  by (induction s) (simp_all add: Len_def bytes_def EncodeRune_def)

lemma scanAfter_prefix:
  "\<exists>k \<le> length ws.
     scanAfter limit ws acc = acc @ concat (map (\<lambda>w. str '' '' @ w) (take k ws))
     \<and> (k < length ws \<longrightarrow> limit \<le> Len (scanAfter limit ws acc))"
proof (induction ws arbitrary: acc)
  case Nil
  then show ?case by simp
next
  case (Cons w ws)
  show ?case
  proof (cases "Len acc < limit")
    case True
    from Cons.IH [of "acc @ str '' '' @ w"] obtain k where k: "k \<le> length ws"
      "scanAfter limit ws (acc @ str '' '' @ w)
         = (acc @ str '' '' @ w) @ concat (map (\<lambda>w. str '' '' @ w) (take k ws))"
      "k < length ws \<longrightarrow> limit \<le> Len (scanAfter limit ws (acc @ str '' '' @ w))"
      by blast
    with True show ?thesis
      by (intro exI [of _ "Suc k"]) simp
  next
    case False
    then show ?thesis
      by (intro exI [of _ 0]) simp
  qed
qed

lemma Len_concat_ascii:
  "\<forall>w \<in> set ws. \<forall>r \<in> set w. r < 0x80 \<Longrightarrow>
   Len (concat (map (\<lambda>w. str '' '' @ w) ws))
     = int (length (concat (map (\<lambda>w. str '' '' @ w) ws)))"
  by (intro Len_ascii) (auto simp: str_def)

lemma specRightBudget_eq:
  assumes "wordLen m \<noteq> 33"
  shows "specRightBudget m = afterSectionWidth m"
proof -
  have "0 \<le> afterSectionWidth m" by (simp add: afterSectionWidth_def)
  then show ?thesis
    using width_word_after [OF assms]
    by (simp add: specRightBudget_def halfWidth_def runes_def RuneCountInString_def)
qed

lemma contextAfter_ascii:
  assumes "\<forall>w \<in> set (drop (nat (currentIdx m + 1)) (words m)). \<forall>r \<in> set w. r < 0x80"
    and "wordLen m \<noteq> 33"
  shows "contextAfter m = specContextAfter m"
proof -
  note specRightBudget_eq [OF assms(2), simp]
  let ?ws = "drop (nat (currentIdx m + 1)) (words m)"
  let ?F = "\<lambda>ws. concat (map (\<lambda>w. str '' '' @ w) ws)"
  let ?N = "afterSectionWidth m"
  have N: "0 \<le> ?N" by (simp add: afterSectionWidth_def)
  obtain k where k: "k \<le> length ?ws" "afterStr m = ?F (take k ?ws)"
    "k < length ?ws \<longrightarrow> ?N + 20 \<le> Len (afterStr m)"
    using scanAfter_prefix [of ?ws "?N + 20" "[]"] by (auto simp: afterStr_def)
  have fw: "followingWords m = ?F (take k ?ws) @ ?F (drop k ?ws)"
    unfolding followingWords_def
    by (subst append_take_drop_id [of k ?ws, symmetric]) (simp only: map_append concat_append)
  show ?thesis
  proof (cases "k < length ?ws")
    case True
    have "\<forall>w \<in> set (take k ?ws). \<forall>r \<in> set w. r < 0x80"
      using assms(1) by (meson in_set_takeD)
    then have "Len (afterStr m) = int (length (afterStr m))"
      unfolding k(2) by (rule Len_concat_ascii)
    with True k(3) have long: "?N + 20 \<le> int (length (afterStr m))" by simp
    then have "contextAfter m = take (nat ?N) (afterStr m)"
      by (simp add: contextAfter_def Let_def)
    moreover have "take (nat ?N) (followingWords m) = take (nat ?N) (afterStr m)"
      using long N by (simp add: fw k(2) [symmetric])
    moreover have "length (take (nat ?N) (followingWords m)) = nat ?N"
      using long N by (simp add: fw k(2) [symmetric])
    ultimately show ?thesis
      by (simp add: specContextAfter_def Let_def Repeat_space del: length_take)
  next
    case False
    with k(1) have "k = length ?ws" by simp
    then have all: "afterStr m = followingWords m"
      by (simp add: k(2) followingWords_def)
    show ?thesis
      using N by (auto simp: contextAfter_def specContextAfter_def Let_def all Repeat_space)
  qed
qed

lemma fieldsFrom_word:
  "\<forall>r \<in> set w. \<not> isSpace r \<Longrightarrow> fieldsFrom cur w = (if cur @ w = [] then [] else [cur @ w])"
  by (induction w arbitrary: cur) simp_all

lemma tokenize_forty:
  "tokenize (replicate 40 97) = [replicate 40 97]"
  by (simp add: tokenize_def Fields_def fieldsFrom_word isSpace_def)

section \<open>The claims\<close>

subsection \<open>C1: the alignment of the word line\<close>

text \<open>
  C1, as amended. For every word sequence whose words are non-empty (as the tokenizer
  yields them) and every current index within it, with \<open>H = 30\<close>,
  \<open>leftPadding = max 0 (focusCol - H)\<close>, the left budget \<open>max 0 (H - before)\<close> and, for a
  current word that does not have exactly 33 code points, the right budget
  \<open>max 0 (H - after)\<close> of the specification: the word line of such a word has
  \<open>leftPadding + 60\<close> code points, whatever the length of the word; and the line has
  exactly one highlighted glyph, the character of the truncated word at its ORP offset, at
  index \<open>leftPadding + H = max H focusCol\<close>. Whenever every character of the word line
  takes one terminal column, these are its display width in columns and the column of the
  highlighted character; that column is \<open>focusCol\<close>, the column of the focus marker,
  whenever \<open>focusCol \<ge> H\<close>.
\<close>

theorem wordLine_alignment:
  assumes "0 \<le> currentIdx m" and "currentIdx m < int (length (words m))"
    and "[] \<notin> set (words m)"
  shows "leftPadding m = max 0 (focusCol m - 30)
       \<and> beforeSectionWidth m = max 0 (30 - orpIdx m)
       \<and> (wordLen m \<noteq> 33 \<longrightarrow> afterSectionWidth m = specRightBudget m)
       \<and> (wordLen m \<noteq> 33 \<longrightarrow> int (length (wordLine m)) = leftPadding m + 60)
       \<and> nat (leftPadding m + 30) < length (wordLine m)
       \<and> wordLine m ! nat (leftPadding m + 30)
           = (highlightStyle, truncateWord (word m) ! nat (calculateORP (truncateWord (word m))))
       \<and> (j < length (wordLine m) \<and> fst (wordLine m ! j) = highlightStyle
            \<longrightarrow> j = nat (leftPadding m + 30))
       \<and> leftPadding m + 30 = max 30 (focusCol m)
       \<and> (30 \<le> focusCol m \<longrightarrow> leftPadding m + 30 = focusCol m)
       \<and> (0 \<le> focusCol m \<longrightarrow> focusLine m ! nat (focusCol m) = (dimStyle, 0x2502))
       \<and> (\<not> quit m \<and> width m \<noteq> 0 \<and> height m \<noteq> 0 \<and> \<not> showPicker m
            \<and> 0 \<le> focusCol m \<and> wpm m \<noteq> 0 \<longrightarrow>
            View m = Inr (Reading (focusLine m) (wordLine m)))
       \<and> ((\<forall>g \<in> set (wordLine m). cells (snd g) = 1) \<longrightarrow>
            (wordLen m \<noteq> 33 \<longrightarrow>
               int (displayWidth cells (wordLine m)) = leftPadding m + 60)
            \<and> int (columnOf cells (wordLine m) (nat (leftPadding m + 30)))
                = max 30 (focusCol m))
       \<and> (cells 32 = 1 \<and> 0 \<le> focusCol m \<longrightarrow>
            int (columnOf cells (focusLine m) (nat (focusCol m))) = focusCol m)"
proof -
  have "word m \<in> set (words m)"
    using assms(1,2) by (simp add: word_def)
  with assms(3) have ne: "word m \<noteq> []" by auto
  have lp: "leftPadding m = max 0 (focusCol m - 30)" "0 \<le> leftPadding m"
    by (simp_all add: leftPadding_def halfWidth_def)
  obtain pre post where s: "wordLine m = pre @ (highlightStyle, runes m ! nat (orpIdx m)) # post"
    and p: "length pre = nat (leftPadding m) + 30"
    and h: "highlightStyle \<notin> fst ` set pre" "highlightStyle \<notin> fst ` set post"
    using wordLine_split [OF ne] by blast
  have n: "nat (leftPadding m + 30) = length pre" using p lp(2) by simp
  have a: "wordLen m \<noteq> 33 \<longrightarrow> int (length (wordLine m)) = leftPadding m + 60"
    using length_wordLine [of m] width_word_after [of m] lp(2) by auto
  have b: "nat (leftPadding m + 30) < length (wordLine m)" using s n by simp
  have c: "wordLine m ! nat (leftPadding m + 30)
           = (highlightStyle, truncateWord (word m) ! nat (calculateORP (truncateWord (word m))))"
    using s n by (simp add: runes_def orpIdx_def truncatedWord_def)
  have d: "j < length (wordLine m) \<and> fst (wordLine m ! j) = highlightStyle
            \<longrightarrow> j = nat (leftPadding m + 30)"
  proof (intro impI, elim conjE)
    assume j: "j < length (wordLine m)" and f: "fst (wordLine m ! j) = highlightStyle"
    show "j = nat (leftPadding m + 30)"
    proof (rule ccontr)
      assume ne: "j \<noteq> nat (leftPadding m + 30)"
      show False
      proof (cases "j < length pre")
        case True
        then have "wordLine m ! j = pre ! j" using s by (simp add: nth_append)
        with True f h(1) show False by (metis image_eqI nth_mem)
      next
        case False
        with ne n have g: "length pre < j" by simp
        then obtain i where i: "j = length pre + Suc i" by (metis less_iff_Suc_add add_Suc_right)
        with s have "wordLine m ! j = post ! i" by (simp add: nth_append)
        moreover from i j s have "i < length post" by simp
        ultimately show False using f h(2) by (metis image_eqI nth_mem)
      qed
    qed
  qed
  have e: "leftPadding m + 30 = max 30 (focusCol m)" using lp(1) by simp
  have f: "0 \<le> focusCol m \<longrightarrow> focusLine m ! nat (focusCol m) = (dimStyle, 0x2502)"
    by (simp add: focusLine_def Render_def Repeat_space nth_append)
  have g: "\<not> quit m \<and> width m \<noteq> 0 \<and> height m \<noteq> 0 \<and> \<not> showPicker m
            \<and> 0 \<le> focusCol m \<and> wpm m \<noteq> 0 \<longrightarrow>
            View m = Inr (Reading (focusLine m) (wordLine m))"
    using assms(1,2) by (auto simp: View_def)
  have bw: "beforeSectionWidth m = max 0 (30 - orpIdx m)"
    by (simp add: beforeSectionWidth_def halfWidth_def charsBeforeORP_def)
  have aw: "wordLen m \<noteq> 33 \<longrightarrow> afterSectionWidth m = specRightBudget m"
    by (simp add: specRightBudget_eq)
  have dw: "(\<forall>g \<in> set (wordLine m). cells (snd g) = 1) \<longrightarrow>
            (wordLen m \<noteq> 33 \<longrightarrow>
               int (displayWidth cells (wordLine m)) = leftPadding m + 60)
            \<and> int (columnOf cells (wordLine m) (nat (leftPadding m + 30)))
                = max 30 (focusCol m)"
  proof (intro impI conjI)
    assume one: "\<forall>g \<in> set (wordLine m). cells (snd g) = 1"
    then have "displayWidth cells (wordLine m) = length (wordLine m)"
      by (rule displayWidth_one)
    then show "int (displayWidth cells (wordLine m)) = leftPadding m + 60"
      if "wordLen m \<noteq> 33"
      using a that by simp
    have "columnOf cells (wordLine m) (nat (leftPadding m + 30)) = nat (leftPadding m + 30)"
      using one b by (intro columnOf_one) simp_all
    then show "int (columnOf cells (wordLine m) (nat (leftPadding m + 30)))
                = max 30 (focusCol m)"
      using e lp(2) by simp
  qed
  have fm: "cells 32 = 1 \<and> 0 \<le> focusCol m \<longrightarrow>
            int (columnOf cells (focusLine m) (nat (focusCol m))) = focusCol m"
    by (simp add: columnOf_focusLine)
  from lp(1) bw aw a b c d e f g dw fm show ?thesis by simp
qed


theorem wordLine_alignment_witness:
  "0 \<le> currentIdx ((initialModel [str ''The'', str ''quick'', str ''brown'', str ''fox''] 500)
                      \<lparr>currentIdx := 1, width := 80, height := 24\<rparr>)
   \<and> currentIdx ((initialModel [str ''The'', str ''quick'', str ''brown'', str ''fox''] 500)
                      \<lparr>currentIdx := 1, width := 80, height := 24\<rparr>)
       < int (length (words ((initialModel [str ''The'', str ''quick'', str ''brown'', str ''fox''] 500)
                      \<lparr>currentIdx := 1, width := 80, height := 24\<rparr>)))
   \<and> [] \<notin> set (words ((initialModel [str ''The'', str ''quick'', str ''brown'', str ''fox''] 500)
                      \<lparr>currentIdx := 1, width := 80, height := 24\<rparr>))
   \<and> focusCol ((initialModel [str ''The'', str ''quick'', str ''brown'', str ''fox''] 500)
                      \<lparr>currentIdx := 1, width := 80, height := 24\<rparr>) = 40
   \<and> wordLen ((initialModel [str ''The'', str ''quick'', str ''brown'', str ''fox''] 500)
                      \<lparr>currentIdx := 1, width := 80, height := 24\<rparr>) = 5
   \<and> leftPadding ((initialModel [str ''The'', str ''quick'', str ''brown'', str ''fox''] 500)
                      \<lparr>currentIdx := 1, width := 80, height := 24\<rparr>) = 10
   \<and> length (wordLine ((initialModel [str ''The'', str ''quick'', str ''brown'', str ''fox''] 500)
                      \<lparr>currentIdx := 1, width := 80, height := 24\<rparr>)) = 70
   \<and> wordLine ((initialModel [str ''The'', str ''quick'', str ''brown'', str ''fox''] 500)
                      \<lparr>currentIdx := 1, width := 80, height := 24\<rparr>) ! 40
       = (highlightStyle, of_char CHR ''u'')
   \<and> focusLine ((initialModel [str ''The'', str ''quick'', str ''brown'', str ''fox''] 500)
                      \<lparr>currentIdx := 1, width := 80, height := 24\<rparr>) ! 40
       = (dimStyle, 0x2502)
   \<and> View ((initialModel [str ''The'', str ''quick'', str ''brown'', str ''fox''] 500)
                      \<lparr>currentIdx := 1, width := 80, height := 24\<rparr>)
       = Inr (Reading
           (focusLine ((initialModel [str ''The'', str ''quick'', str ''brown'', str ''fox''] 500)
                      \<lparr>currentIdx := 1, width := 80, height := 24\<rparr>))
           (wordLine ((initialModel [str ''The'', str ''quick'', str ''brown'', str ''fox''] 500)
                      \<lparr>currentIdx := 1, width := 80, height := 24\<rparr>)))
   \<and> displayWidth (\<lambda>r. 1)
        (wordLine ((initialModel [str ''The'', str ''quick'', str ''brown'', str ''fox''] 500)
                      \<lparr>currentIdx := 1, width := 80, height := 24\<rparr>)) = 70
   \<and> columnOf (\<lambda>r. 1)
        (wordLine ((initialModel [str ''The'', str ''quick'', str ''brown'', str ''fox''] 500)
                      \<lparr>currentIdx := 1, width := 80, height := 24\<rparr>)) 40 = 40
   \<and> columnOf (\<lambda>r. 1)
        (focusLine ((initialModel [str ''The'', str ''quick'', str ''brown'', str ''fox''] 500)
                      \<lparr>currentIdx := 1, width := 80, height := 24\<rparr>)) 40 = 40"
proof -
  let ?m = "(initialModel [str ''The'', str ''quick'', str ''brown'', str ''fox''] 500)
                      \<lparr>currentIdx := 1, width := 80, height := 24\<rparr>"
  have h: "0 \<le> currentIdx ?m" "currentIdx ?m < int (length (words ?m))" "[] \<notin> set (words ?m)"
    by (simp_all add: initialModel_def str_def)
  have f: "focusCol ?m = 40" "leftPadding ?m = 10" "wordLen ?m = 5" "word ?m = str ''quick''"
    by (simp_all add: initialModel_def leftPadding_def halfWidth_def wordLen_def word_def
        RuneCountInString_def)
  have t: "truncateWord (str ''quick'') = str ''quick''" "calculateORP (str ''quick'') = 1"
    by (simp_all add: truncateWord_def calculateORP_def RuneCountInString_def)
  note th = wordLine_alignment [OF h, where j = 40 and cells = "\<lambda>r. 1"]
  from th have "wordLen ?m \<noteq> 33 \<longrightarrow> int (length (wordLine ?m)) = leftPadding ?m + 60"
    by blast
  with f(2,3) have l: "length (wordLine ?m) = 70" by simp
  from th have "wordLine ?m ! nat (leftPadding ?m + 30)
      = (highlightStyle, truncateWord (word ?m) ! nat (calculateORP (truncateWord (word ?m))))"
    by blast
  then have "wordLine ?m ! nat (10 + 30) = (highlightStyle, str ''quick'' ! nat 1)"
    by (simp only: f(2,4) t)
  then have n: "wordLine ?m ! 40 = (highlightStyle, of_char CHR ''u'')"
    by (simp add: str_def)
  have s: "\<not> quit ?m \<and> width ?m \<noteq> 0 \<and> height ?m \<noteq> 0 \<and> \<not> showPicker ?m
            \<and> 0 \<le> focusCol ?m \<and> wpm ?m \<noteq> 0"
    by (simp add: initialModel_def)
  from th s have v: "View ?m = Inr (Reading (focusLine ?m) (wordLine ?m))" by blast
  from th s have "focusLine ?m ! nat (focusCol ?m) = (dimStyle, 0x2502)" by blast
  then have k: "focusLine ?m ! 40 = (dimStyle, 0x2502)" by (simp add: f(1))
  have one: "\<forall>g \<in> set (wordLine ?m). (\<lambda>r. 1::nat) (snd g) = 1" by simp
  from th one have "wordLen ?m \<noteq> 33 \<longrightarrow>
      int (displayWidth (\<lambda>r. 1) (wordLine ?m)) = leftPadding ?m + 60"
    by blast
  with f(2,3) have dw: "displayWidth (\<lambda>r. 1) (wordLine ?m) = 70" by simp
  from th one have "int (columnOf (\<lambda>r. 1) (wordLine ?m) (nat (leftPadding ?m + 30)))
      = max 30 (focusCol ?m)"
    by blast
  then have cw: "columnOf (\<lambda>r. 1) (wordLine ?m) 40 = 40" by (simp add: f(1,2))
  from th s have "int (columnOf (\<lambda>r. 1) (focusLine ?m) (nat (focusCol ?m))) = focusCol ?m"
    by blast
  then have cf: "columnOf (\<lambda>r. 1) (focusLine ?m) 40 = 40" by (simp add: f(1))
  from h f(1,2,3) l n k v dw cw cf show ?thesis by blast
qed

text \<open>
  C1 as stated fails on a terminal narrower than 60 columns, on a line of ASCII
  characters, one column each: with \<open>focusCol = 20\<close> the padding is 0 and the highlighted
  character is at column 30, while column 20 holds a space of the left context. The width
  is not constant either: at the same focus column a word of 33 code points gives a line
  of 71 columns where a word of 3 gives 70.
\<close>

theorem wordLine_alignment_counterexample:
  "focusCol ((initialModel [str ''The'', str ''quick'', str ''brown'', str ''fox''] 500)
               \<lparr>currentIdx := 1, width := 40, height := 24, focusCol := 20\<rparr>) = 20
   \<and> focusLine ((initialModel [str ''The'', str ''quick'', str ''brown'', str ''fox''] 500)
               \<lparr>currentIdx := 1, width := 40, height := 24, focusCol := 20\<rparr>) ! 20
       = (dimStyle, 0x2502)
   \<and> wordLine ((initialModel [str ''The'', str ''quick'', str ''brown'', str ''fox''] 500)
               \<lparr>currentIdx := 1, width := 40, height := 24, focusCol := 20\<rparr>) ! 20
       = (contextStyle, of_char CHR '' '')
   \<and> wordLine ((initialModel [str ''The'', str ''quick'', str ''brown'', str ''fox''] 500)
               \<lparr>currentIdx := 1, width := 40, height := 24, focusCol := 20\<rparr>) ! 30
       = (highlightStyle, of_char CHR ''u'')
   \<and> length (wordLine ((initialModel [str ''fox''] 500)\<lparr>width := 80, height := 24\<rparr>)) = 70
   \<and> length (wordLine ((initialModel [replicate 33 (of_char CHR ''a'')] 500)
                          \<lparr>width := 80, height := 24\<rparr>)) = 71"
  by code_simp

subsection \<open>C2: loading a document\<close>

text \<open>
  C2, as amended. When the file picker reports a selected file that reads as text: if the
  tokenized word list is non-empty, the engine takes it, with \<open>currentIdx = 0\<close> and paused
  (state Paused), whatever the state before. If the word list is empty, the words, the
  index and the pause flag stay as they are and only the error text is set, so the engine
  stays in the state it had; it is Idle, and the renderer shows the notice of the error,
  exactly when no document was loaded before.
\<close>

theorem load_document:
  assumes "showPicker m" and "k \<noteq> ''esc''" and "k \<noteq> ''q''"
    and "\<not> isBinaryFile (bytes content)"
  shows "(tokenize content \<noteq> [] \<longrightarrow>
            Update (KeyMsg k) (Selection path (ReadOk content)) m
              = Inr (m\<lparr>words := tokenize content, currentIdx := 0, paused := True,
                       selectedFile := path, fileError := [], showPicker := False\<rparr>, NoCmd)
            \<and> engineState (m\<lparr>words := tokenize content, currentIdx := 0, paused := True,
                       selectedFile := path, fileError := [], showPicker := False\<rparr>) = Paused)
       \<and> (tokenize content = [] \<longrightarrow>
            Update (KeyMsg k) (Selection path (ReadOk content)) m
              = Inr (m\<lparr>fileError := str ''No words found in file'', showPicker := False\<rparr>, NoCmd)
            \<and> engineState (m\<lparr>fileError := str ''No words found in file'', showPicker := False\<rparr>)
                = engineState m
            \<and> (words m = [] \<and> \<not> quit m \<and> width m \<noteq> 0 \<and> height m \<noteq> 0 \<longrightarrow>
                 engineState m = Idle
                 \<and> View (m\<lparr>fileError := str ''No words found in file'', showPicker := False\<rparr>)
                     = Inr (Notice (str ''No words found in file'' @ pressO))))"
proof (intro conjI impI)
  assume t: "tokenize content \<noteq> []"
  show "Update (KeyMsg k) (Selection path (ReadOk content)) m
              = Inr (m\<lparr>words := tokenize content, currentIdx := 0, paused := True,
                       selectedFile := path, fileError := [], showPicker := False\<rparr>, NoCmd)"
    using assms t by (simp add: Update_select selectFile_words)
  show "engineState (m\<lparr>words := tokenize content, currentIdx := 0, paused := True,
                       selectedFile := path, fileError := [], showPicker := False\<rparr>) = Paused"
    using t by (simp add: engineState_def)
next
  assume t: "tokenize content = []"
  show "Update (KeyMsg k) (Selection path (ReadOk content)) m
              = Inr (m\<lparr>fileError := str ''No words found in file'', showPicker := False\<rparr>, NoCmd)"
    using assms t by (simp add: Update_select selectFile_no_words)
  show "engineState (m\<lparr>fileError := str ''No words found in file'', showPicker := False\<rparr>)
                = engineState m"
    by (simp add: engineState_def)
next
  assume "tokenize content = []"
    and "words m = [] \<and> \<not> quit m \<and> width m \<noteq> 0 \<and> height m \<noteq> 0"
  then show "engineState m = Idle"
    and "View (m\<lparr>fileError := str ''No words found in file'', showPicker := False\<rparr>)
                     = Inr (Notice (str ''No words found in file'' @ pressO))"
    by (simp_all add: engineState_def View_no_words str_def)
qed

theorem load_document_witness:
  "showPicker (initialModel [] 500) \<and> ''enter'' \<noteq> ''esc'' \<and> ''enter'' \<noteq> ''q''
   \<and> \<not> isBinaryFile (bytes (str ''The quick brown fox''))
   \<and> tokenize (str ''The quick brown fox'') = [str ''The'', str ''quick'', str ''brown'', str ''fox'']
   \<and> Update (KeyMsg ''enter'') (Selection (str ''fox.txt'') (ReadOk (str ''The quick brown fox'')))
        (initialModel [] 500)
      = Inr ((initialModel [str ''The'', str ''quick'', str ''brown'', str ''fox''] 500)
               \<lparr>selectedFile := str ''fox.txt''\<rparr>, NoCmd)
   \<and> showPicker ((initialModel [] 500)\<lparr>width := 80, height := 24\<rparr>)
   \<and> \<not> isBinaryFile (bytes []) \<and> tokenize [] = []
   \<and> words ((initialModel [] 500)\<lparr>width := 80, height := 24\<rparr>) = []
   \<and> \<not> quit ((initialModel [] 500)\<lparr>width := 80, height := 24\<rparr>)
   \<and> Update (KeyMsg ''enter'') (Selection (str ''empty.txt'') (ReadOk []))
        ((initialModel [] 500)\<lparr>width := 80, height := 24\<rparr>)
      = Inr ((initialModel [] 500)
               \<lparr>width := 80, height := 24, fileError := str ''No words found in file'',
                showPicker := False\<rparr>, NoCmd)
   \<and> View ((initialModel [] 500)
               \<lparr>width := 80, height := 24, fileError := str ''No words found in file'',
                showPicker := False\<rparr>)
      = Inr (Notice (str ''No words found in file'' @ pressO))"
proof -
  let ?e = "(initialModel [] 500)\<lparr>width := 80, height := 24\<rparr>"
  have p: "showPicker (initialModel [] 500)" "showPicker ?e" by (simp_all add: initialModel_def)
  have k: "''enter'' \<noteq> ''esc''" "''enter'' \<noteq> ''q''" by simp_all
  have b: "\<not> isBinaryFile (bytes (str ''The quick brown fox''))"
    by (simp add: isBinaryFile_def bytes_def str_def EncodeRune_def)
  have e: "\<not> isBinaryFile (bytes [])" "tokenize [] = []"
    by (simp_all add: isBinaryFile_def bytes_def tokenize_def Fields_def)
  have s: "words ?e = []" "\<not> quit ?e" "width ?e \<noteq> 0" "height ?e \<noteq> 0"
    by (simp_all add: initialModel_def)
  show ?thesis
    using p k b e s tokenize_fox
      load_document [OF p(1) k b, of "str ''fox.txt''"]
      load_document [OF p(2) k e(1), of "str ''empty.txt''"]
    by (simp add: initialModel_def)
qed

text \<open>
  C2 as stated fails when a document is loaded already: after an empty file is selected
  the engine is still Paused on the previous words, and the renderer shows the reading
  screen of the previous document.
\<close>

theorem load_empty_counterexample:
  "Update (KeyMsg ''enter'') (Selection (str ''empty.txt'') (ReadOk []))
     ((initialModel [str ''The'', str ''quick'', str ''brown'', str ''fox''] 500)
        \<lparr>currentIdx := 2, width := 80, height := 24, showPicker := True\<rparr>)
   = Inr ((initialModel [str ''The'', str ''quick'', str ''brown'', str ''fox''] 500)
            \<lparr>currentIdx := 2, width := 80, height := 24,
             fileError := str ''No words found in file''\<rparr>, NoCmd)
   \<and> engineState ((initialModel [str ''The'', str ''quick'', str ''brown'', str ''fox''] 500)
            \<lparr>currentIdx := 2, width := 80, height := 24,
             fileError := str ''No words found in file''\<rparr>) = Paused
   \<and> View ((initialModel [str ''The'', str ''quick'', str ''brown'', str ''fox''] 500)
            \<lparr>currentIdx := 2, width := 80, height := 24,
             fileError := str ''No words found in file''\<rparr>)
      = Inr (Reading
          (focusLine ((initialModel [str ''The'', str ''quick'', str ''brown'', str ''fox''] 500)
            \<lparr>currentIdx := 2, width := 80, height := 24,
             fileError := str ''No words found in file''\<rparr>))
          (wordLine ((initialModel [str ''The'', str ''quick'', str ''brown'', str ''fox''] 500)
            \<lparr>currentIdx := 2, width := 80, height := 24,
             fileError := str ''No words found in file''\<rparr>)))"
  by (simp add: Update_def resize_def updatePicker_def selectFile_def isBinaryFile_def bytes_def
      tokenize_def Fields_def initialModel_def engineState_def View_def)

subsection \<open>C3: a tick while playing\<close>

text \<open>
  C3. In every state that satisfies the invariant of the engine (every state that the
  program reaches does, \<open>reachable_invariant\<close>) and is Playing, that is, has a non-empty
  word sequence and is not paused: a tick below the last word increments \<open>currentIdx\<close> by
  exactly one and returns one more tick command; a tick at the last word leaves
  \<open>currentIdx\<close> as it is, pauses, and returns no command. The index is never beyond the
  last word.
\<close>

theorem tick_while_playing:
  assumes "invariant m" and "engineState m = Playing"
  shows "(currentIdx m < int (length (words m)) - 1 \<longrightarrow>
            Update tickMsg sel m
              = Inr (m\<lparr>currentIdx := currentIdx m + 1\<rparr>, Tick (60000000000 div wpm m)))
       \<and> (currentIdx m = int (length (words m)) - 1 \<longrightarrow>
            Update tickMsg sel m = Inr (m\<lparr>paused := True\<rparr>, NoCmd)
            \<and> engineState (m\<lparr>paused := True\<rparr>) = Paused)
       \<and> currentIdx m \<le> int (length (words m)) - 1"
proof -
  from assms(2) have play: "words m \<noteq> []" "\<not> paused m"
    by (auto simp: engineState_def split: if_splits)
  from assms(1) play have np: "\<not> showPicker m" and w: "50 \<le> wpm m"
    and r: "currentIdx m \<le> int (length (words m)) - 1"
    by (auto simp: invariant_def)
  have a: "currentIdx m < int (length (words m)) - 1 \<longrightarrow>
            Update tickMsg sel m
              = Inr (m\<lparr>currentIdx := currentIdx m + 1\<rparr>, Tick (60000000000 div wpm m))"
    using np play w by (simp add: Update_tick updateTick_advance goDiv_pos)
  have b: "currentIdx m = int (length (words m)) - 1 \<longrightarrow>
            Update tickMsg sel m = Inr (m\<lparr>paused := True\<rparr>, NoCmd)
            \<and> engineState (m\<lparr>paused := True\<rparr>) = Paused"
    using np play by (simp add: Update_tick updateTick_end engineState_def)
  from a b r show ?thesis by blast
qed

theorem tick_while_playing_witness:
  "invariant ((initialModel [str ''The'', str ''quick'', str ''brown'', str ''fox''] 500)
                \<lparr>paused := False\<rparr>)
   \<and> reachable ((initialModel [str ''The'', str ''quick'', str ''brown'', str ''fox''] 500)
                   \<lparr>paused := False\<rparr>)
   \<and> engineState ((initialModel [str ''The'', str ''quick'', str ''brown'', str ''fox''] 500)
                     \<lparr>paused := False\<rparr>) = Playing
   \<and> Update tickMsg NoSelection
        ((initialModel [str ''The'', str ''quick'', str ''brown'', str ''fox''] 500)
           \<lparr>paused := False\<rparr>)
      = Inr ((initialModel [str ''The'', str ''quick'', str ''brown'', str ''fox''] 500)
               \<lparr>paused := False, currentIdx := 1\<rparr>, Tick 120000000)
   \<and> invariant ((initialModel [str ''The'', str ''quick'', str ''brown'', str ''fox''] 500)
                   \<lparr>currentIdx := 3, paused := False\<rparr>)
   \<and> reachable ((initialModel [str ''The'', str ''quick'', str ''brown'', str ''fox''] 500)
                   \<lparr>currentIdx := 3, paused := False\<rparr>)
   \<and> engineState ((initialModel [str ''The'', str ''quick'', str ''brown'', str ''fox''] 500)
                     \<lparr>currentIdx := 3, paused := False\<rparr>) = Playing
   \<and> Update tickMsg NoSelection
        ((initialModel [str ''The'', str ''quick'', str ''brown'', str ''fox''] 500)
           \<lparr>currentIdx := 3, paused := False\<rparr>)
      = Inr ((initialModel [str ''The'', str ''quick'', str ''brown'', str ''fox''] 500)
               \<lparr>currentIdx := 3, paused := True\<rparr>, NoCmd)"
proof -
  let ?m0 = "initialModel [str ''The'', str ''quick'', str ''brown'', str ''fox''] 500"
  have r0: "reachable ?m0"
    using reachable.start [of "str ''The quick brown fox''" 500]
    by (simp add: tokenize_fox clampFlag_500)
  have np: "\<not> showPicker ?m0" by (simp add: initialModel_def)
  have "Update (KeyMsg '' '') NoSelection ?m0 = Inr (?m0\<lparr>paused := False\<rparr>, Tick 120000000)"
    using np by (simp add: Update_key updateKey_def key_defs withTick_def tickCmd_def goDiv_def
        initialModel_def)
  with r0 have r1: "reachable (?m0\<lparr>paused := False\<rparr>)" by (rule reachable.step)
  have "Update (KeyMsg '']'') NoSelection ?m0 = Inr (?m0\<lparr>currentIdx := 3\<rparr>, NoCmd)"
    using np by (simp add: Update_key updateKey_def key_defs initialModel_def)
  with r0 have r2: "reachable (?m0\<lparr>currentIdx := 3\<rparr>)" by (rule reachable.step)
  have "Update (KeyMsg '' '') NoSelection (?m0\<lparr>currentIdx := 3\<rparr>)
          = Inr (?m0\<lparr>currentIdx := 3, paused := False\<rparr>, Tick 120000000)"
    by (simp add: Update_def resize_def updateKey_def key_defs withTick_def tickCmd_def goDiv_def
        initialModel_def)
  with r2 have r3: "reachable (?m0\<lparr>currentIdx := 3, paused := False\<rparr>)" by (rule reachable.step)
  have i1: "invariant (?m0\<lparr>paused := False\<rparr>)" using r1 by (rule reachable_invariant)
  have i3: "invariant (?m0\<lparr>currentIdx := 3, paused := False\<rparr>)"
    using r3 by (rule reachable_invariant)
  have p1: "engineState (?m0\<lparr>paused := False\<rparr>) = Playing"
    and p3: "engineState (?m0\<lparr>currentIdx := 3, paused := False\<rparr>) = Playing"
    by (simp_all add: engineState_def initialModel_def)
  show ?thesis
    using r1 r3 i1 i3 p1 p3
      tick_while_playing [OF i1 p1, of NoSelection]
      tick_while_playing [OF i3 p3, of NoSelection]
    by (simp add: initialModel_def)
qed

subsection \<open>C4: the index stays within the sequence\<close>

text \<open>
  C4. For every non-empty word sequence and every \<open>currentIdx\<close> from 0 to the last index:
  whatever message \<open>Update\<close> handles, the index of the state it returns is again within
  the (possibly reloaded) sequence; and on the reading screen the step, jump and restart
  keys and the tick return a state, never an error, whose index is the requested one
  clamped to the first and last index: next and previous move by one, the jumps by ten,
  restart goes to 0, and a tick moves by one while playing (the tick command divides a
  minute by the rate, which must not be 0).
\<close>

theorem index_clamped:
  assumes "words m \<noteq> []" and "0 \<le> currentIdx m" and "currentIdx m < int (length (words m))"
  shows "(Update msg sel m = Inr (m', c) \<longrightarrow>
            0 \<le> currentIdx m' \<and> currentIdx m' < int (length (words m')))
       \<and> (\<not> showPicker m \<longrightarrow>
            (k \<in> set keysNext \<longrightarrow>
               Update (KeyMsg k) sel m
                 = Inr (m\<lparr>currentIdx := min (currentIdx m + 1) (int (length (words m)) - 1)\<rparr>, NoCmd))
          \<and> (k \<in> set keysPrev \<longrightarrow>
               Update (KeyMsg k) sel m = Inr (m\<lparr>currentIdx := max (currentIdx m - 1) 0\<rparr>, NoCmd))
          \<and> (k \<in> set keysJumpFwd \<longrightarrow>
               Update (KeyMsg k) sel m
                 = Inr (m\<lparr>currentIdx := min (currentIdx m + 10) (int (length (words m)) - 1)\<rparr>, NoCmd))
          \<and> (k \<in> set keysJumpBack \<longrightarrow>
               Update (KeyMsg k) sel m = Inr (m\<lparr>currentIdx := max (currentIdx m - 10) 0\<rparr>, NoCmd))
          \<and> (k \<in> set keysRestart \<longrightarrow>
               Update (KeyMsg k) sel m = Inr (m\<lparr>currentIdx := 0, paused := True\<rparr>, NoCmd))
          \<and> (wpm m \<noteq> 0 \<longrightarrow>
               Update tickMsg sel m
                 = Inr (if paused m then m
                        else if currentIdx m < int (length (words m)) - 1
                        then m\<lparr>currentIdx := currentIdx m + 1\<rparr>
                        else m\<lparr>paused := True\<rparr>,
                        if \<not> paused m \<and> currentIdx m < int (length (words m)) - 1
                        then Tick (goDiv 60000000000 (wpm m)) else NoCmd)))"
proof (intro conjI impI)
  assume "Update msg sel m = Inr (m', c)"
  with assms show "0 \<le> currentIdx m'" and "currentIdx m' < int (length (words m'))"
    using index_preserved by blast+
next
  assume "\<not> showPicker m" "k \<in> set keysNext"
  then show "Update (KeyMsg k) sel m
     = Inr (m\<lparr>currentIdx := min (currentIdx m + 1) (int (length (words m)) - 1)\<rparr>, NoCmd)"
    using assms by (simp add: Update_key updateKey_Next min_def)
next
  assume "\<not> showPicker m" "k \<in> set keysPrev"
  then show "Update (KeyMsg k) sel m = Inr (m\<lparr>currentIdx := max (currentIdx m - 1) 0\<rparr>, NoCmd)"
    using assms by (simp add: Update_key updateKey_Prev max_def)
next
  assume "\<not> showPicker m" "k \<in> set keysJumpFwd"
  then show "Update (KeyMsg k) sel m
     = Inr (m\<lparr>currentIdx := min (currentIdx m + 10) (int (length (words m)) - 1)\<rparr>, NoCmd)"
    using assms by (simp add: Update_key updateKey_JumpFwd min_def)
next
  assume "\<not> showPicker m" "k \<in> set keysJumpBack"
  then show "Update (KeyMsg k) sel m = Inr (m\<lparr>currentIdx := max (currentIdx m - 10) 0\<rparr>, NoCmd)"
    using assms by (simp add: Update_key updateKey_JumpBack max_def)
next
  assume "\<not> showPicker m" "k \<in> set keysRestart"
  then show "Update (KeyMsg k) sel m = Inr (m\<lparr>currentIdx := 0, paused := True\<rparr>, NoCmd)"
    by (simp add: Update_key updateKey_Restart)
next
  assume np: "\<not> showPicker m" and w: "wpm m \<noteq> 0"
  show "Update tickMsg sel m
                 = Inr (if paused m then m
                        else if currentIdx m < int (length (words m)) - 1
                        then m\<lparr>currentIdx := currentIdx m + 1\<rparr>
                        else m\<lparr>paused := True\<rparr>,
                        if \<not> paused m \<and> currentIdx m < int (length (words m)) - 1
                        then Tick (goDiv 60000000000 (wpm m)) else NoCmd)"
  proof (cases "currentIdx m < int (length (words m)) - 1")
    case True
    then show ?thesis using np w
      by (cases "paused m") (simp_all add: Update_tick updateTick_advance updateTick_paused)
  next
    case False
    then have "currentIdx m \<ge> int (length (words m)) - 1" by simp
    then show ?thesis using np False
      by (cases "paused m") (simp_all add: Update_tick updateTick_end)
  qed
qed

theorem index_clamped_witness:
  "words ((initialModel [str ''The'', str ''quick'', str ''brown'', str ''fox''] 500)\<lparr>currentIdx := 3\<rparr>) \<noteq> []
   \<and> 0 \<le> currentIdx ((initialModel [str ''The'', str ''quick'', str ''brown'', str ''fox''] 500)\<lparr>currentIdx := 3\<rparr>)
   \<and> currentIdx ((initialModel [str ''The'', str ''quick'', str ''brown'', str ''fox''] 500)\<lparr>currentIdx := 3\<rparr>)
        < int (length (words ((initialModel [str ''The'', str ''quick'', str ''brown'', str ''fox''] 500)\<lparr>currentIdx := 3\<rparr>)))
   \<and> \<not> showPicker ((initialModel [str ''The'', str ''quick'', str ''brown'', str ''fox''] 500)\<lparr>currentIdx := 3\<rparr>)
   \<and> wpm ((initialModel [str ''The'', str ''quick'', str ''brown'', str ''fox''] 500)\<lparr>currentIdx := 3\<rparr>) \<noteq> 0
   \<and> ''['' \<in> set keysJumpBack \<and> '']'' \<in> set keysJumpFwd \<and> ''left'' \<in> set keysPrev
   \<and> ''right'' \<in> set keysNext \<and> ''r'' \<in> set keysRestart
   \<and> Update (KeyMsg ''['') NoSelection
        ((initialModel [str ''The'', str ''quick'', str ''brown'', str ''fox''] 500)\<lparr>currentIdx := 3\<rparr>)
       = Inr ((initialModel [str ''The'', str ''quick'', str ''brown'', str ''fox''] 500)\<lparr>currentIdx := 0\<rparr>, NoCmd)
   \<and> Update (KeyMsg '']'') NoSelection
        ((initialModel [str ''The'', str ''quick'', str ''brown'', str ''fox''] 500)\<lparr>currentIdx := 3\<rparr>)
       = Inr ((initialModel [str ''The'', str ''quick'', str ''brown'', str ''fox''] 500)\<lparr>currentIdx := 3\<rparr>, NoCmd)
   \<and> Update (KeyMsg ''left'') NoSelection
        ((initialModel [str ''The'', str ''quick'', str ''brown'', str ''fox''] 500)\<lparr>currentIdx := 3\<rparr>)
       = Inr ((initialModel [str ''The'', str ''quick'', str ''brown'', str ''fox''] 500)\<lparr>currentIdx := 2\<rparr>, NoCmd)
   \<and> Update (KeyMsg ''right'') NoSelection
        ((initialModel [str ''The'', str ''quick'', str ''brown'', str ''fox''] 500)\<lparr>currentIdx := 3\<rparr>)
       = Inr ((initialModel [str ''The'', str ''quick'', str ''brown'', str ''fox''] 500)\<lparr>currentIdx := 3\<rparr>, NoCmd)
   \<and> Update (KeyMsg ''r'') NoSelection
        ((initialModel [str ''The'', str ''quick'', str ''brown'', str ''fox''] 500)\<lparr>currentIdx := 3\<rparr>)
       = Inr ((initialModel [str ''The'', str ''quick'', str ''brown'', str ''fox''] 500)\<lparr>currentIdx := 0\<rparr>, NoCmd)
   \<and> Update tickMsg NoSelection
        ((initialModel [str ''The'', str ''quick'', str ''brown'', str ''fox''] 500)\<lparr>currentIdx := 3\<rparr>)
       = Inr ((initialModel [str ''The'', str ''quick'', str ''brown'', str ''fox''] 500)\<lparr>currentIdx := 3\<rparr>, NoCmd)
   \<and> 0 \<le> currentIdx ((initialModel [str ''The'', str ''quick'', str ''brown'', str ''fox''] 500)\<lparr>currentIdx := 0\<rparr>)"
proof -
  let ?m = "(initialModel [str ''The'', str ''quick'', str ''brown'', str ''fox''] 500)\<lparr>currentIdx := 3\<rparr>"
  have h: "words ?m \<noteq> []" "0 \<le> currentIdx ?m" "currentIdx ?m < int (length (words ?m))"
    by (simp_all add: initialModel_def)
  have np: "\<not> showPicker ?m" "wpm ?m \<noteq> 0" by (simp_all add: initialModel_def)
  have k: "''['' \<in> set keysJumpBack" "'']'' \<in> set keysJumpFwd" "''left'' \<in> set keysPrev"
    "''right'' \<in> set keysNext" "''r'' \<in> set keysRestart"
    by (simp_all add: keysJumpBack_def keysJumpFwd_def keysPrev_def keysNext_def keysRestart_def)
  have jb: "Update (KeyMsg ''['') NoSelection ?m = Inr (?m\<lparr>currentIdx := 0\<rparr>, NoCmd)"
    using index_clamped [OF h, where k = "''[''" and sel = NoSelection] np k
    by (simp add: initialModel_def)
  have jf: "Update (KeyMsg '']'') NoSelection ?m = Inr (?m, NoCmd)"
    using index_clamped [OF h, where k = "'']''" and sel = NoSelection] np k
    by (simp add: initialModel_def)
  have pv: "Update (KeyMsg ''left'') NoSelection ?m = Inr (?m\<lparr>currentIdx := 2\<rparr>, NoCmd)"
    using index_clamped [OF h, where k = "''left''" and sel = NoSelection] np k
    by (simp add: initialModel_def)
  have nx: "Update (KeyMsg ''right'') NoSelection ?m = Inr (?m, NoCmd)"
    using index_clamped [OF h, where k = "''right''" and sel = NoSelection] np k
    by (simp add: initialModel_def)
  have rs: "Update (KeyMsg ''r'') NoSelection ?m = Inr (?m\<lparr>currentIdx := 0\<rparr>, NoCmd)"
    using index_clamped [OF h, where k = "''r''" and sel = NoSelection] np k
    by (simp add: initialModel_def)
  have tk: "Update tickMsg NoSelection ?m = Inr (?m, NoCmd)"
    using index_clamped [OF h, where sel = NoSelection] np
    by (simp add: initialModel_def)
  have "0 \<le> currentIdx (?m\<lparr>currentIdx := 0\<rparr>)"
    using index_clamped [OF h, where msg = "KeyMsg ''[''" and sel = NoSelection
        and m' = "?m\<lparr>currentIdx := 0\<rparr>" and c = NoCmd] jb
    by blast
  with h np k jb jf pv nx rs tk show ?thesis by simp
qed

subsection \<open>C5: the right context\<close>

text \<open>
  C5 holds for text in ASCII whose current word does not have exactly 33 code points
  (\<open>contextAfter_ascii\<close> above): there the right context is the leading \<open>N\<close> code points
  of the following words, padded to \<open>N\<close>. The scan, however, measures what it has gathered
  in bytes (\<^verbatim>\<open>afterBuilder.Len()\<close>) and the budget in code points. With the current word
  \<open>a\<close> (budget 29, scan limit 49) followed by a word of 24 Cyrillic letters of two bytes
  each and then \<open>b\<close> and \<open>c\<close>, the scan stops after the first following word, at 49 bytes
  and 25 code points, and the right context ends in four spaces where the claim has \<open>b\<close>
  and \<open>c\<close>.
\<close>

theorem contextAfter_multibyte:
  "afterSectionWidth ((initialModel [str ''a'', replicate 24 0x44F, str ''b'', str ''c''] 500)
                        \<lparr>width := 80, height := 24\<rparr>) = 29
   \<and> specRightBudget ((initialModel [str ''a'', replicate 24 0x44F, str ''b'', str ''c''] 500)
                        \<lparr>width := 80, height := 24\<rparr>) = 29
   \<and> Len (afterStr ((initialModel [str ''a'', replicate 24 0x44F, str ''b'', str ''c''] 500)
                        \<lparr>width := 80, height := 24\<rparr>)) = 49
   \<and> contextAfter ((initialModel [str ''a'', replicate 24 0x44F, str ''b'', str ''c''] 500)
                        \<lparr>width := 80, height := 24\<rparr>)
       = str '' '' @ replicate 24 0x44F @ str ''    ''
   \<and> specContextAfter ((initialModel [str ''a'', replicate 24 0x44F, str ''b'', str ''c''] 500)
                        \<lparr>width := 80, height := 24\<rparr>)
       = str '' '' @ replicate 24 0x44F @ str '' b c''"
proof -
  let ?m = "(initialModel [str ''a'', replicate 24 0x44F, str ''b'', str ''c''] 500)
                        \<lparr>width := 80, height := 24\<rparr>"
  have w: "afterSectionWidth ?m = 29"
    by (simp add: afterSectionWidth_def halfWidth_def charsAfterORP_def wordLen_def orpIdx_def
        truncatedWord_def truncateWord_def word_def calculateORP_def RuneCountInString_def
        initialModel_def)
  have "wordLen ?m \<noteq> 33"
    by (simp add: wordLen_def word_def RuneCountInString_def initialModel_def)
  then have b: "specRightBudget ?m = 29"
    using w by (simp add: specRightBudget_eq)
  have e: "length (EncodeRune 0x44F) = 2" by (simp add: EncodeRune_def)
  have l: "Len (str '' '' @ replicate 24 0x44F) = 49"
    by (simp add: Len_Cons Len_replicate e str_def EncodeRune_def)
  have i: "words ?m = [str ''a'', replicate 24 0x44F, str ''b'', str ''c'']" "currentIdx ?m = 0"
    by (simp_all add: initialModel_def)
  have s: "afterStr ?m = str '' '' @ replicate 24 0x44F"
    by (simp add: afterStr_def w i l Len_Nil)
  have r: "replicate 4 32 = str ''    ''" by code_simp
  have c: "contextAfter ?m = str '' '' @ replicate 24 0x44F @ str ''    ''"
    by (simp add: contextAfter_def w s Repeat_space r)
  have f: "followingWords ?m = str '' '' @ replicate 24 0x44F @ str '' b c''"
    by (simp add: followingWords_def i) (simp add: str_def)
  have p: "specContextAfter ?m = str '' '' @ replicate 24 0x44F @ str '' b c''"
    by (simp add: specContextAfter_def b f Repeat_space)
  from w b l s c p show ?thesis by (simp only: simp_thms)
qed

subsection \<open>C6: truncation of long words\<close>

text \<open>
  C6. A word of more than 32 code points is displayed as its first 31 code points followed
  by three dots, so that a word of 40 code points becomes a display string of 34; any other
  word is displayed unchanged: the characters of the rendered word, in order, are those of
  the truncated form, each in the normal style except the one at the ORP offset, which is
  highlighted. The view computes the ORP offset on this truncated form, and for every word
  that the tokenizer yields the offset is an index into the displayed string.
\<close>

theorem truncateWord_display:
  "(32 < RuneCountInString w \<longrightarrow> truncateWord w = take 31 w @ str ''...'')
   \<and> (RuneCountInString w \<le> 32 \<longrightarrow> truncateWord w = w)
   \<and> (RuneCountInString w = 40 \<longrightarrow> RuneCountInString (truncateWord w) = 34)
   \<and> (0 \<le> currentIdx m \<and> currentIdx m < int (length (words m)) \<and> word m = w \<longrightarrow>
        runes m = truncateWord w \<and> orpIdx m = calculateORP (truncateWord w)
        \<and> length (renderedWord m) = length (truncateWord w)
        \<and> map snd (renderedWord m) = truncateWord w
        \<and> (j < length (truncateWord w) \<longrightarrow>
             renderedWord m ! j
               = (if int j = calculateORP (truncateWord w) then highlightStyle else normalStyle,
                  truncateWord w ! j)))
   \<and> (0 \<le> currentIdx m \<and> currentIdx m < int (length (words m)) \<and> word m = w
        \<and> w \<in> set (tokenize text) \<longrightarrow>
        0 \<le> orpIdx m \<and> orpIdx m < RuneCountInString (truncateWord w)
        \<and> renderedWord m ! nat (orpIdx m) = (highlightStyle, truncateWord w ! nat (orpIdx m)))"
proof (intro conjI impI)
  show "32 < RuneCountInString w \<Longrightarrow> truncateWord w = take 31 w @ str ''...''"
    by (simp add: truncateWord_def)
  show "RuneCountInString w \<le> 32 \<Longrightarrow> truncateWord w = w"
    by (simp add: truncateWord_def)
  show "RuneCountInString w = 40 \<Longrightarrow> RuneCountInString (truncateWord w) = 34"
    by (simp add: RuneCount_truncateWord)
next
  assume "0 \<le> currentIdx m \<and> currentIdx m < int (length (words m)) \<and> word m = w"
  then have w: "runes m = truncateWord w" "orpIdx m = calculateORP (truncateWord w)"
    by (simp_all add: runes_def orpIdx_def truncatedWord_def)
  then show "runes m = truncateWord w" and "orpIdx m = calculateORP (truncateWord w)"
    and "length (renderedWord m) = length (truncateWord w)"
    by (simp_all add: length_renderedWord)
  show "map snd (renderedWord m) = truncateWord w"
    using w(1) by (simp add: snd_renderedWord)
next
  assume "0 \<le> currentIdx m \<and> currentIdx m < int (length (words m)) \<and> word m = w"
    and j: "j < length (truncateWord w)"
  then have w: "runes m = truncateWord w" "orpIdx m = calculateORP (truncateWord w)"
    by (simp_all add: runes_def orpIdx_def truncatedWord_def)
  from j w(1) have "j < length (runes m)" by simp
  then have "renderedWord m ! j
      = (if int j = orpIdx m then highlightStyle else normalStyle, runes m ! j)"
    by (rule nth_renderedWord)
  then show "renderedWord m ! j
               = (if int j = calculateORP (truncateWord w) then highlightStyle else normalStyle,
                  truncateWord w ! j)"
    by (simp only: w)
next
  assume a: "0 \<le> currentIdx m \<and> currentIdx m < int (length (words m)) \<and> word m = w
        \<and> w \<in> set (tokenize text)"
  then have ne: "word m \<noteq> []" using tokenize_nonempty by blast
  from a have r: "runes m = truncateWord w" by (simp add: runes_def truncatedWord_def)
  show "0 \<le> orpIdx m" using orpIdx_range by blast
  have lt: "nat (orpIdx m) < length (runes m)" using ne by (rule orpIdx_lt)
  then show "orpIdx m < RuneCountInString (truncateWord w)"
    using r by (simp add: RuneCountInString_def)
  have "int (nat (orpIdx m)) = orpIdx m" using orpIdx_range [of m] by simp
  with lt r show "renderedWord m ! nat (orpIdx m) = (highlightStyle, truncateWord w ! nat (orpIdx m))"
    by (simp add: nth_renderedWord)
qed

theorem truncateWord_display_witness:
  "replicate 40 97 \<in> set (tokenize (replicate 40 97))
   \<and> 0 \<le> currentIdx (initialModel [replicate 40 97] 500)
   \<and> currentIdx (initialModel [replicate 40 97] 500)
       < int (length (words (initialModel [replicate 40 97] 500)))
   \<and> word (initialModel [replicate 40 97] 500) = replicate 40 97
   \<and> RuneCountInString (replicate 40 97) = 40
   \<and> truncateWord (replicate 40 97) = replicate 31 97 @ str ''...''
   \<and> RuneCountInString (truncateWord (replicate 40 97)) = 34
   \<and> orpIdx (initialModel [replicate 40 97] 500) = 4
   \<and> renderedWord (initialModel [replicate 40 97] 500) ! 4 = (highlightStyle, 97)
   \<and> renderedWord (initialModel [replicate 40 97] 500) ! 33 = (normalStyle, 46)
   \<and> map snd (renderedWord (initialModel [replicate 40 97] 500))
       = replicate 31 97 @ str ''...''
   \<and> truncateWord (str ''extraordinarily'') = str ''extraordinarily''"
proof -
  let ?w = "replicate 40 97 :: gostring"
  let ?m = "initialModel [?w] 500"
  have h: "?w \<in> set (tokenize ?w)" "word ?m = ?w" "RuneCountInString ?w = 40"
    "0 \<le> currentIdx ?m" "currentIdx ?m < int (length (words ?m))"
    by (simp_all add: tokenize_forty word_def initialModel_def RuneCountInString_def)
  have s: "RuneCountInString (str ''extraordinarily'') \<le> 32"
    by (simp add: RuneCountInString_def)
  note th = truncateWord_display [of ?w ?m 33 ?w]
  from th h have t: "truncateWord ?w = take 31 ?w @ str ''...''" by simp
  then have t': "truncateWord ?w = replicate 31 97 @ str ''...''" by simp
  from th h have c: "RuneCountInString (truncateWord ?w) = 34" by blast
  from th h have o: "orpIdx ?m = calculateORP (truncateWord ?w)" by blast
  have o4: "orpIdx ?m = 4"
    using c by (simp add: o calculateORP_def Let_def)
  from th h have "renderedWord ?m ! nat (orpIdx ?m) = (highlightStyle, truncateWord ?w ! nat (orpIdx ?m))"
    by blast
  then have g: "renderedWord ?m ! 4 = (highlightStyle, 97)"
    by (simp add: o4 t' nth_append)
  from th h have "map snd (renderedWord ?m) = truncateWord ?w" by blast
  then have d: "map snd (renderedWord ?m) = replicate 31 97 @ str ''...''"
    by (simp only: t')
  have l: "(33::nat) < length (truncateWord ?w)"
    using c by (simp add: RuneCountInString_def)
  from th h l have "renderedWord ?m ! 33
      = (if int 33 = calculateORP (truncateWord ?w) then highlightStyle else normalStyle,
         truncateWord ?w ! 33)"
    by blast
  then have n: "renderedWord ?m ! 33 = (normalStyle, 46)"
    using o o4 by (simp add: t' nth_append str_def)
  have e: "truncateWord (str ''extraordinarily'') = str ''extraordinarily''"
    using truncateWord_display [of "str ''extraordinarily''"] s by blast
  from h t' c o4 g n d e show ?thesis by blast
qed

subsection \<open>C7: the ORP table\<close>

text \<open>
  C7, as amended. For every string \<open>w\<close> with code point count \<open>l\<close>, \<open>calculateORP\<close> is 0
  for \<open>l \<le> 1\<close>, 1 for \<open>l \<le> 5\<close>, 2 for \<open>l \<le> 9\<close>, 3 for \<open>l \<le> 13\<close> and 4 above; it is
  monotonically non-decreasing in \<open>l\<close>; and for every non-empty \<open>w\<close> (every word that the
  tokenizer yields) it is strictly less than \<open>min l 33\<close>, before and after truncation.
\<close>

theorem calculateORP_table:
  "calculateORP w =
     (if RuneCountInString w \<le> 1 then 0 else if RuneCountInString w \<le> 5 then 1
      else if RuneCountInString w \<le> 9 then 2 else if RuneCountInString w \<le> 13 then 3
      else 4)
   \<and> (RuneCountInString a \<le> RuneCountInString b \<longrightarrow> calculateORP a \<le> calculateORP b)
   \<and> (w \<noteq> [] \<longrightarrow>
        calculateORP w < min (RuneCountInString w) 33
        \<and> calculateORP (truncateWord w) < min (RuneCountInString w) 33
        \<and> calculateORP (truncateWord w) < min (RuneCountInString (truncateWord w)) 33)"
proof (intro conjI impI)
  show "calculateORP w =
     (if RuneCountInString w \<le> 1 then 0 else if RuneCountInString w \<le> 5 then 1
      else if RuneCountInString w \<le> 9 then 2 else if RuneCountInString w \<le> 13 then 3
      else 4)"
    by (simp add: calculateORP_def Let_def)
next
  assume "RuneCountInString a \<le> RuneCountInString b"
  then show "calculateORP a \<le> calculateORP b"
    by (simp add: calculateORP_def Let_def)
next
  assume ne: "w \<noteq> []"
  then have pos: "1 \<le> RuneCountInString w"
    by (cases w) (simp_all add: RuneCountInString_def)
  from ne show "calculateORP w < min (RuneCountInString w) 33"
    using calculateORP_lt_length [of w] calculateORP_range [of w] by simp
  have "calculateORP (truncateWord w) < RuneCountInString (truncateWord w)"
    using ne by (simp add: calculateORP_lt_length truncateWord_nonempty)
  moreover have "RuneCountInString (truncateWord w) \<le> 32 \<longrightarrow> RuneCountInString (truncateWord w) \<le> RuneCountInString w"
    by (simp add: RuneCount_truncateWord)
  moreover have "\<not> RuneCountInString (truncateWord w) \<le> 32 \<longrightarrow> 33 \<le> RuneCountInString w"
    by (simp add: RuneCount_truncateWord split: if_splits)
  ultimately show "calculateORP (truncateWord w) < min (RuneCountInString w) 33"
    using calculateORP_range [of "truncateWord w"] by linarith
  show "calculateORP (truncateWord w) < min (RuneCountInString (truncateWord w)) 33"
    using \<open>calculateORP (truncateWord w) < RuneCountInString (truncateWord w)\<close>
      calculateORP_range [of "truncateWord w"] by simp
qed

theorem calculateORP_table_witness:
  "str ''extraordinarily'' \<noteq> []
   \<and> RuneCountInString (str ''fox'') \<le> RuneCountInString (str ''extraordinarily'')
   \<and> RuneCountInString (str ''extraordinarily'') = 15
   \<and> truncateWord (str ''extraordinarily'') = str ''extraordinarily''
   \<and> calculateORP (str ''extraordinarily'') = 4
   \<and> calculateORP (str ''fox'') \<le> calculateORP (str ''extraordinarily'')
   \<and> calculateORP (truncateWord (str ''extraordinarily'')) < min (RuneCountInString (str ''extraordinarily'')) 33"
proof -
  have h1: "str ''extraordinarily'' \<noteq> []" by (simp add: str_def)
  have h2: "RuneCountInString (str ''fox'') \<le> RuneCountInString (str ''extraordinarily'')"
    by (simp add: RuneCountInString_def)
  have h3: "RuneCountInString (str ''extraordinarily'') = 15"
    by (simp add: RuneCountInString_def)
  have h4: "truncateWord (str ''extraordinarily'') = str ''extraordinarily''"
    by (simp add: truncateWord_def RuneCountInString_def)
  show ?thesis
    using h1 h2 h3 h4
      calculateORP_table [of "str ''extraordinarily''" "str ''fox''" "str ''extraordinarily''"]
    by simp
qed

text \<open>
  C7 as stated, over all strings, fails at the empty string: its offset is 0, which is not
  strictly less than \<open>min 0 33\<close>.
\<close>

theorem calculateORP_empty_counterexample:
  "calculateORP [] = 0 \<and> calculateORP (truncateWord []) = 0
   \<and> \<not> calculateORP (truncateWord []) < min (RuneCountInString []) 33"
  by (simp add: calculateORP_def truncateWord_def RuneCountInString_def)

subsection \<open>C8: speed changes\<close>

text \<open>
  C8. In every state that satisfies the invariant of the engine (every state that the
  program reaches does, \<open>reachable_invariant\<close>; the invariant keeps the rate from 50 to
  1000), on the reading screen: a faster key yields \<open>clamp (wpm + 25) 50 1000\<close> and a
  slower key yields \<open>clamp (wpm - 25) 50 1000\<close>, and nothing else of the state changes;
  at 1000 a faster key and at 50 a slower key leave the state as it is.
\<close>

theorem setSpeed_clamped:
  assumes "invariant m" and "\<not> showPicker m"
  shows "(k \<in> set keysFaster \<longrightarrow>
            Update (KeyMsg k) sel m = Inr (m\<lparr>wpm := clamp (wpm m + 25) 50 1000\<rparr>, NoCmd))
       \<and> (k \<in> set keysSlower \<longrightarrow>
            Update (KeyMsg k) sel m = Inr (m\<lparr>wpm := clamp (wpm m - 25) 50 1000\<rparr>, NoCmd))
       \<and> (k \<in> set keysFaster \<and> wpm m = 1000 \<longrightarrow> Update (KeyMsg k) sel m = Inr (m, NoCmd))
       \<and> (k \<in> set keysSlower \<and> wpm m = 50 \<longrightarrow> Update (KeyMsg k) sel m = Inr (m, NoCmd))"
proof -
  from assms(1) have r: "50 \<le> wpm m" "wpm m \<le> 1000"
    by (simp_all add: invariant_def)
  note f = updateKey_Faster [of k m] and s = updateKey_Slower [of k m]
  have cf: "clamp (wpm m + 25) 50 1000 = (if wpm m + 25 > 1000 then 1000 else wpm m + 25)"
    using r by (simp add: clamp_def)
  have cs: "clamp (wpm m - 25) 50 1000 = (if wpm m - 25 < 50 then 50 else wpm m - 25)"
    using r by (simp add: clamp_def)
  have a: "k \<in> set keysFaster \<longrightarrow>
            Update (KeyMsg k) sel m = Inr (m\<lparr>wpm := clamp (wpm m + 25) 50 1000\<rparr>, NoCmd)"
    using assms(2) f by (simp add: Update_key cf)
  have b: "k \<in> set keysSlower \<longrightarrow>
            Update (KeyMsg k) sel m = Inr (m\<lparr>wpm := clamp (wpm m - 25) 50 1000\<rparr>, NoCmd)"
    using assms(2) s by (simp add: Update_key cs)
  have c: "k \<in> set keysFaster \<and> wpm m = 1000 \<longrightarrow> Update (KeyMsg k) sel m = Inr (m, NoCmd)"
    using assms(2) f by (simp add: Update_key)
  have d: "k \<in> set keysSlower \<and> wpm m = 50 \<longrightarrow> Update (KeyMsg k) sel m = Inr (m, NoCmd)"
    using assms(2) s by (simp add: Update_key)
  from a b c d show ?thesis by blast
qed

theorem setSpeed_clamped_witness:
  "reachable (initialModel [str ''fox''] 1000) \<and> invariant (initialModel [str ''fox''] 1000)
   \<and> \<not> showPicker (initialModel [str ''fox''] 1000)
   \<and> reachable (initialModel [str ''fox''] 50) \<and> invariant (initialModel [str ''fox''] 50)
   \<and> \<not> showPicker (initialModel [str ''fox''] 50)
   \<and> ''up'' \<in> set keysFaster \<and> ''down'' \<in> set keysSlower
   \<and> Update (KeyMsg ''up'') NoSelection (initialModel [str ''fox''] 1000)
       = Inr (initialModel [str ''fox''] 1000, NoCmd)
   \<and> Update (KeyMsg ''down'') NoSelection (initialModel [str ''fox''] 1000)
       = Inr ((initialModel [str ''fox''] 1000)\<lparr>wpm := 975\<rparr>, NoCmd)
   \<and> Update (KeyMsg ''down'') NoSelection (initialModel [str ''fox''] 50)
       = Inr (initialModel [str ''fox''] 50, NoCmd)
   \<and> Update (KeyMsg ''up'') NoSelection (initialModel [str ''fox''] 50)
       = Inr ((initialModel [str ''fox''] 50)\<lparr>wpm := 75\<rparr>, NoCmd)"
proof -
  have t: "tokenize (str ''fox'') = [str ''fox'']"
    by (simp add: tokenize_def Fields_def str_def isSpace_def)
  have c: "clampFlag 1000 = 1000" "clampFlag 50 = 50" by (simp_all add: clampFlag_def)
  have a: "reachable (initialModel [str ''fox''] 1000)" "reachable (initialModel [str ''fox''] 50)"
    using reachable.start [of "str ''fox''" 1000] reachable.start [of "str ''fox''" 50]
    by (simp_all add: t c)
  have i: "invariant (initialModel [str ''fox''] 1000)" "invariant (initialModel [str ''fox''] 50)"
    using a by (simp_all add: reachable_invariant)
  have p: "\<not> showPicker (initialModel [str ''fox''] 1000)"
          "\<not> showPicker (initialModel [str ''fox''] 50)"
    by (simp_all add: initialModel_def)
  have k: "''up'' \<in> set keysFaster" "''down'' \<in> set keysSlower"
    by (simp_all add: keysFaster_def keysSlower_def)
  have v: "wpm (initialModel [str ''fox''] 1000) = 1000" "wpm (initialModel [str ''fox''] 50) = 50"
    by (simp_all add: initialModel_def)
  have u1: "Update (KeyMsg ''up'') NoSelection (initialModel [str ''fox''] 1000)
       = Inr (initialModel [str ''fox''] 1000, NoCmd)"
    using setSpeed_clamped [OF i(1) p(1), of "''up''" NoSelection] k v by blast
  have d1: "Update (KeyMsg ''down'') NoSelection (initialModel [str ''fox''] 1000)
       = Inr ((initialModel [str ''fox''] 1000)\<lparr>wpm := 975\<rparr>, NoCmd)"
    using setSpeed_clamped [OF i(1) p(1), of "''down''" NoSelection] k v
    by (simp add: clamp_def)
  have d2: "Update (KeyMsg ''down'') NoSelection (initialModel [str ''fox''] 50)
       = Inr (initialModel [str ''fox''] 50, NoCmd)"
    using setSpeed_clamped [OF i(2) p(2), of "''down''" NoSelection] k v by blast
  have u2: "Update (KeyMsg ''up'') NoSelection (initialModel [str ''fox''] 50)
       = Inr ((initialModel [str ''fox''] 50)\<lparr>wpm := 75\<rparr>, NoCmd)"
    using setSpeed_clamped [OF i(2) p(2), of "''up''" NoSelection] k v
    by (simp add: clamp_def)
  from a i p k u1 d1 d2 u2 show ?thesis by blast
qed

subsection \<open>C9: the tick interval\<close>

text \<open>
  C9, as amended. For every rate from 50 to 1000 the interval of \<open>tickCmd\<close> is the number of
  nanoseconds of a minute integer-divided by the rate; its whole milliseconds are
  60000 integer-divided by the rate.
\<close>

theorem tickCmd_interval:
  assumes "50 \<le> w" and "w \<le> 1000"
  shows "tickCmd w = Inr (Tick (60000000000 div w))
         \<and> (60000000000 div w) div 1000000 = specIntervalMs w"
proof -
  have w: "0 \<le> w" "0 < w" "w \<noteq> 0" using assms by simp_all
  have "(60000000000 div w) div 1000000 = (60000000000::int) div (w * 1000000)"
    by (simp add: zdiv_zmult2_eq [symmetric])
  also have "\<dots> = (60000000000::int) div (1000000 * w)"
    by (simp only: mult.commute)
  also have "\<dots> = ((60000000000::int) div 1000000) div w"
    using w(1) by (rule zdiv_zmult2_eq)
  also have "\<dots> = 60000 div w" by simp
  finally have ms: "(60000000000 div w) div 1000000 = specIntervalMs w"
    by (simp add: specIntervalMs_def)
  have "tickCmd w = Inr (Tick (60000000000 div w))"
    using w by (simp add: tickCmd_def goDiv_pos)
  with ms show ?thesis by simp
qed

theorem tickCmd_interval_witness:
  "(50::int) \<le> 500 \<and> (500::int) \<le> 1000 \<and> tickCmd 500 = Inr (Tick 120000000)
   \<and> specIntervalMs 500 = 120"
proof -
  have h: "(50::int) \<le> 500" "(500::int) \<le> 1000" by simp_all
  show ?thesis using tickCmd_interval [OF h] by (simp add: specIntervalMs_def)
qed

text \<open>
  C9 as stated fails at 700 words per minute: the interval is 85714285 nanoseconds, which is
  neither 85 milliseconds (60000 integer-divided by 700) nor exactly a 700th of a minute.
\<close>

theorem tickCmd_interval_counterexample:
  "tickCmd 700 = Inr (Tick 85714285)
   \<and> 85714285 \<noteq> specIntervalMs 700 * 1000000
   \<and> 85714285 * 700 \<noteq> (60000000000::int)"
  by (simp add: tickCmd_def goDiv_def specIntervalMs_def)

subsection \<open>C10: the index while no words are loaded\<close>

text \<open>
  C10. While the word sequence is empty: on the reading screen, from index 0, the
  jump-forward key sets \<open>currentIdx\<close> to \<open>len - 1 = -1\<close>, and the step keys and the
  jump-backward key leave it at 0. Whatever the index, \<open>View\<close> never indexes the empty
  sequence: it raises no index error and returns no reading screen, and once the earlier
  returns are passed (not quitting, terminal sized, picker closed) it returns the
  no-content notice. A later selection of a file with words sets \<open>currentIdx\<close> to 0.
\<close>

theorem idle_index:
  assumes "words m = []"
  shows "(\<not> showPicker m \<and> k \<in> set keysJumpFwd \<and> currentIdx m = 0 \<longrightarrow>
            Update (KeyMsg k) sel m = Inr (m\<lparr>currentIdx := - 1\<rparr>, NoCmd))
       \<and> (\<not> showPicker m \<and> currentIdx m = 0
            \<and> (k \<in> set keysNext \<or> k \<in> set keysPrev \<or> k \<in> set keysJumpBack) \<longrightarrow>
            Update (KeyMsg k) sel m = Inr (m, NoCmd))
       \<and> View m \<noteq> Inl IndexOutOfRange \<and> View m \<noteq> Inr (Reading fl wl)
       \<and> (\<not> quit m \<and> width m \<noteq> 0 \<and> height m \<noteq> 0 \<and> \<not> showPicker m \<longrightarrow>
            View m = Inr (Notice ((if fileError m \<noteq> [] then fileError m
                                   else str ''No words to display'') @ pressO)))
       \<and> (showPicker m \<and> k \<noteq> ''esc'' \<and> k \<noteq> ''q'' \<and> \<not> isBinaryFile (bytes content)
            \<and> tokenize content \<noteq> [] \<and> Update (KeyMsg k) (Selection path (ReadOk content)) m = Inr (m', c) \<longrightarrow>
            currentIdx m' = 0 \<and> words m' = tokenize content)"
proof (intro conjI impI)
  assume "\<not> showPicker m \<and> k \<in> set keysJumpFwd \<and> currentIdx m = 0"
  then show "Update (KeyMsg k) sel m = Inr (m\<lparr>currentIdx := - 1\<rparr>, NoCmd)"
    using assms by (simp add: Update_key updateKey_JumpFwd)
next
  assume a: "\<not> showPicker m \<and> currentIdx m = 0
            \<and> (k \<in> set keysNext \<or> k \<in> set keysPrev \<or> k \<in> set keysJumpBack)"
  then consider "k \<in> set keysNext" | "k \<in> set keysPrev" | "k \<in> set keysJumpBack" by blast
  then show "Update (KeyMsg k) sel m = Inr (m, NoCmd)"
  proof cases
    case 1
    then show ?thesis using a assms by (simp add: Update_key updateKey_Next)
  next
    case 2
    then show ?thesis using a assms by (simp add: Update_key updateKey_Prev)
  next
    case 3
    then show ?thesis using a assms by (simp add: Update_key updateKey_JumpBack)
  qed
next
  show "View m \<noteq> Inl IndexOutOfRange" and "View m \<noteq> Inr (Reading fl wl)"
    using assms by (simp_all add: View_no_words)
next
  assume "\<not> quit m \<and> width m \<noteq> 0 \<and> height m \<noteq> 0 \<and> \<not> showPicker m"
  then show "View m = Inr (Notice ((if fileError m \<noteq> [] then fileError m
                                   else str ''No words to display'') @ pressO))"
    using assms by (simp add: View_no_words)
next
  assume a: "showPicker m \<and> k \<noteq> ''esc'' \<and> k \<noteq> ''q'' \<and> \<not> isBinaryFile (bytes content)
            \<and> tokenize content \<noteq> [] \<and> Update (KeyMsg k) (Selection path (ReadOk content)) m = Inr (m', c)"
  then have "Update (KeyMsg k) (Selection path (ReadOk content)) m
               = Inr (selectFile path (ReadOk content) m, NoCmd)"
    by (intro Update_select) simp_all
  with a have "m' = selectFile path (ReadOk content) m" by simp
  with a show "currentIdx m' = 0" and "words m' = tokenize content"
    by (simp_all add: selectFile_words)
qed

theorem idle_index_witness:
  "words ((initialModel [] 500)\<lparr>width := 80, height := 24, showPicker := False\<rparr>) = []
   \<and> \<not> showPicker ((initialModel [] 500)\<lparr>width := 80, height := 24, showPicker := False\<rparr>)
   \<and> '']'' \<in> set keysJumpFwd \<and> ''right'' \<in> set keysNext \<and> ''left'' \<in> set keysPrev
   \<and> ''['' \<in> set keysJumpBack
   \<and> currentIdx ((initialModel [] 500)\<lparr>width := 80, height := 24, showPicker := False\<rparr>) = 0
   \<and> Update (KeyMsg '']'') NoSelection
        ((initialModel [] 500)\<lparr>width := 80, height := 24, showPicker := False\<rparr>)
      = Inr ((initialModel [] 500)
               \<lparr>width := 80, height := 24, showPicker := False, currentIdx := - 1\<rparr>, NoCmd)
   \<and> Update (KeyMsg ''right'') NoSelection
        ((initialModel [] 500)\<lparr>width := 80, height := 24, showPicker := False\<rparr>)
      = Inr ((initialModel [] 500)\<lparr>width := 80, height := 24, showPicker := False\<rparr>, NoCmd)
   \<and> Update (KeyMsg ''left'') NoSelection
        ((initialModel [] 500)\<lparr>width := 80, height := 24, showPicker := False\<rparr>)
      = Inr ((initialModel [] 500)\<lparr>width := 80, height := 24, showPicker := False\<rparr>, NoCmd)
   \<and> Update (KeyMsg ''['') NoSelection
        ((initialModel [] 500)\<lparr>width := 80, height := 24, showPicker := False\<rparr>)
      = Inr ((initialModel [] 500)\<lparr>width := 80, height := 24, showPicker := False\<rparr>, NoCmd)
   \<and> View ((initialModel [] 500)
               \<lparr>width := 80, height := 24, showPicker := False, currentIdx := - 1\<rparr>)
      = Inr (Notice (str ''No words to display'' @ pressO))
   \<and> showPicker ((initialModel [] 500)\<lparr>width := 80, height := 24, currentIdx := - 1\<rparr>)
   \<and> Update (KeyMsg ''enter'') (Selection (str ''fox.txt'') (ReadOk (str ''The quick brown fox'')))
        ((initialModel [] 500)\<lparr>width := 80, height := 24, currentIdx := - 1\<rparr>)
      = Inr ((initialModel [str ''The'', str ''quick'', str ''brown'', str ''fox''] 500)
               \<lparr>width := 80, height := 24, selectedFile := str ''fox.txt''\<rparr>, NoCmd)
   \<and> currentIdx ((initialModel [str ''The'', str ''quick'', str ''brown'', str ''fox''] 500)
               \<lparr>width := 80, height := 24, selectedFile := str ''fox.txt''\<rparr>) = 0"
proof -
  let ?i = "(initialModel [] 500)\<lparr>width := 80, height := 24, showPicker := False\<rparr>"
  let ?j = "(initialModel [] 500)\<lparr>width := 80, height := 24, showPicker := False, currentIdx := - 1\<rparr>"
  let ?p = "(initialModel [] 500)\<lparr>width := 80, height := 24, currentIdx := - 1\<rparr>"
  let ?l = "(initialModel [str ''The'', str ''quick'', str ''brown'', str ''fox''] 500)
               \<lparr>width := 80, height := 24, selectedFile := str ''fox.txt''\<rparr>"
  have w: "words ?i = []" "words ?j = []" "words ?p = []" by (simp_all add: initialModel_def)
  have f: "\<not> showPicker ?i" "currentIdx ?i = 0" "'']'' \<in> set keysJumpFwd"
    "''right'' \<in> set keysNext" "''left'' \<in> set keysPrev" "''['' \<in> set keysJumpBack"
    by (simp_all add: initialModel_def keysJumpFwd_def keysNext_def keysPrev_def keysJumpBack_def)
  have v: "\<not> quit ?j \<and> width ?j \<noteq> 0 \<and> height ?j \<noteq> 0 \<and> \<not> showPicker ?j"
    "fileError ?j = []"
    by (simp_all add: initialModel_def)
  have b: "\<not> isBinaryFile (bytes (str ''The quick brown fox''))"
    by (simp add: isBinaryFile_def bytes_def str_def EncodeRune_def)
  have p: "showPicker ?p" by (simp add: initialModel_def)
  have u: "Update (KeyMsg ''enter'') (Selection (str ''fox.txt'') (ReadOk (str ''The quick brown fox''))) ?p
             = Inr (?l, NoCmd)"
    using p b by (simp add: Update_select selectFile_words tokenize_fox initialModel_def)
  have j: "Update (KeyMsg '']'') NoSelection ?i = Inr (?j, NoCmd)"
    using idle_index [OF w(1), where k = "'']''" and sel = NoSelection] f
    by (simp add: initialModel_def)
  have n: "Update (KeyMsg ''right'') NoSelection ?i = Inr (?i, NoCmd)"
    using idle_index [OF w(1), where k = "''right''" and sel = NoSelection] f by simp
  have q: "Update (KeyMsg ''left'') NoSelection ?i = Inr (?i, NoCmd)"
    using idle_index [OF w(1), where k = "''left''" and sel = NoSelection] f by simp
  have r: "Update (KeyMsg ''['') NoSelection ?i = Inr (?i, NoCmd)"
    using idle_index [OF w(1), where k = "''[''" and sel = NoSelection] f by simp
  have d: "View ?j = Inr (Notice (str ''No words to display'' @ pressO))"
    using idle_index [OF w(2)] v by simp
  have l: "currentIdx ?l = 0"
    using idle_index [OF w(3), where k = "''enter''" and content = "str ''The quick brown fox''"
        and path = "str ''fox.txt''" and m' = ?l and c = NoCmd] p b u
    by (simp add: tokenize_fox)
  from w f j n q r d p u l show ?thesis by simp
qed

end
